theory Spec2Isabelle
  imports Main
begin

section \<open>Strings\<close>

text \<open>
  A JavaScript string is modelled by the list of its code units, one \<^typ>\<open>char\<close>
  each; the model covers the code units below 256. An absent, \<^verbatim>\<open>null\<close> or empty
  string field that the source only ever reads through \<^verbatim>\<open>x || ''\<close> is the empty
  string.
\<close>

definition lower_char :: "char \<Rightarrow> char" where
  "lower_char c =
     (let n = (of_char c :: nat) in
      if (65 \<le> n \<and> n \<le> 90) \<or> (192 \<le> n \<and> n \<le> 222 \<and> n \<noteq> 215)
      then char_of (n + 32) else c)"

definition toLowerCase :: "string \<Rightarrow> string" where
  "toLowerCase s = map lower_char s"

text \<open>
  \<^verbatim>\<open>stripExt\<close>: \<^verbatim>\<open>name.replace(/\.[^.]+$/, '')\<close> removes the last dot and what
  follows it, when at least one character follows it.
\<close>

definition stripExt :: "string \<Rightarrow> string" where
  "stripExt name =
     (let ext = takeWhile (\<lambda>c. c \<noteq> CHR ''.'') (rev name) in
      if ext \<noteq> [] \<and> length ext < length name
      then take (length name - length ext - 1) name
      else name)"

text \<open>
  White space as \<^verbatim>\<open>\s\<close> and \<^verbatim>\<open>trim()\<close> see it: tab, line feed, vertical tab,
  form feed, carriage return, space and the no-break space.
\<close>

definition is_space :: "char \<Rightarrow> bool" where
  "is_space c = ((of_char c :: nat) \<in> {9, 10, 11, 12, 13, 32, 160})"

definition trim :: "string \<Rightarrow> string" where
  "trim s = rev (dropWhile is_space (rev (dropWhile is_space s)))"

text \<open>
  \<^verbatim>\<open>replace(/<[^>]*>/g, '')\<close>: a \<^verbatim>\<open><\<close> with a \<^verbatim>\<open>>\<close> somewhere after it is
  removed together with everything up to the first such \<^verbatim>\<open>>\<close>. The flag says
  whether the scan is inside such a match.
\<close>

fun strip_tags_from :: "bool \<Rightarrow> string \<Rightarrow> string" where
  "strip_tags_from _ [] = []"
| "strip_tags_from True (c # cs) =
     (if c = CHR ''>'' then strip_tags_from False cs else strip_tags_from True cs)"
| "strip_tags_from False (c # cs) =
     (if c = CHR ''<'' \<and> CHR ''>'' \<in> set cs then strip_tags_from True cs
      else c # strip_tags_from False cs)"

definition strip_tags :: "string \<Rightarrow> string" where
  "strip_tags s = strip_tags_from False s"

section \<open>The media cache\<close>

text \<open>
  A cache entry \<^verbatim>\<open>{ id, url }\<close>. An identifier of the site is an integer, or
  \<open>None\<close> for \<^verbatim>\<open>undefined\<close>, the value of the \<^verbatim>\<open>id\<close> of an object that has none.
\<close>

record media_entry =
  entry_id :: "int option"
  entry_url :: string

text \<open>
  The parsed content of the cache file. Each field may be missing from the JSON;
  \<open>None\<close> stands for a missing (or falsy) field.
\<close>

record disk_cache =
  wpBaseUrl :: "string option"
  lastUpdated :: "int option"
  media :: "(string \<rightharpoonup> media_entry) option"

definition CACHE_MAX_AGE_MS :: int where
  "CACHE_MAX_AGE_MS = 24 * 60 * 60 * 1000"

text \<open>
  \<^verbatim>\<open>isCacheValid(cache, wpBaseUrl)\<close>. The first argument of the model is the value of
  \<^verbatim>\<open>Date.now()\<close>; a \<^verbatim>\<open>null\<close> cache is \<open>None\<close>.
\<close>

definition isCacheValid :: "int \<Rightarrow> disk_cache option \<Rightarrow> string \<Rightarrow> bool" where
  "isCacheValid now cache base =
     (case cache of
        None \<Rightarrow> False
      | Some c \<Rightarrow>
          if media c = None then False
          else if wpBaseUrl c \<noteq> Some base then False
          else
            (let age = now - (case lastUpdated c of None \<Rightarrow> 0 | Some t \<Rightarrow> t)
             in age < CACHE_MAX_AGE_MS))"

subsection \<open>The object that holds the entries\<close>

text \<open>
  \<^verbatim>\<open>mediaCache\<close> and the \<^verbatim>\<open>media\<close> of a cache are plain JavaScript objects used as
  dictionaries. Such an object has its own properties and a prototype, and both are
  seen by \<^verbatim>\<open>obj[key]\<close> and \<^verbatim>\<open>obj[key] = value\<close>:
  \<^item> the prototype is \<^verbatim>\<open>Object.prototype\<close> (\<open>proto = None\<close>) until an assignment to the
    key \<^verbatim>\<open>__proto__\<close> replaces it by the assigned entry; this is what the assignment does
    when the object has no own property of that name, and then no own property is
    created;
  \<^item> a key that is not an own property is looked up in the prototype: in the entry that
    replaced it (its \<^verbatim>\<open>id\<close> and \<^verbatim>\<open>url\<close>), then in \<^verbatim>\<open>Object.prototype\<close>, whose
    properties are functions; the key \<^verbatim>\<open>__proto__\<close> reads the prototype itself;
  \<^item> \<^verbatim>\<open>JSON.stringify\<close> writes the own properties only, and \<^verbatim>\<open>JSON.parse\<close> builds an
    object with the prototype \<^verbatim>\<open>Object.prototype\<close> in which every key of the text,
    \<^verbatim>\<open>__proto__\<close> too, is an own property.
\<close>

record media_map =
  own_props :: "string \<rightharpoonup> media_entry"
  proto :: "media_entry option"

text \<open>\<^verbatim>\<open>{}\<close>, and the object that \<^verbatim>\<open>JSON.parse\<close> builds.\<close>

definition empty_object :: media_map where
  "empty_object = \<lparr>own_props = Map.empty, proto = None\<rparr>"

definition from_json :: "(string \<rightharpoonup> media_entry) \<Rightarrow> media_map" where
  "from_json m = \<lparr>own_props = m, proto = None\<rparr>"

text \<open>
  The value of \<^verbatim>\<open>obj[key]\<close>, as far as the program looks at it: an entry; another
  value that counts as true in a condition and has neither \<^verbatim>\<open>id\<close> nor \<^verbatim>\<open>url\<close> (a
  function, \<^verbatim>\<open>Object.prototype\<close>, a number other than 0, a string other than
  \<^verbatim>\<open>''\<close>); or a value that counts as false (\<^verbatim>\<open>undefined\<close>, \<^verbatim>\<open>0\<close>, \<^verbatim>\<open>''\<close>).
\<close>

datatype property = Entry media_entry | Foreign | Missing

text \<open>The names of the properties of \<^verbatim>\<open>Object.prototype\<close> other than \<^verbatim>\<open>__proto__\<close>.\<close>

definition object_prototype_names :: "string list" where
  "object_prototype_names =
     [''constructor'', ''__defineGetter__'', ''__defineSetter__'', ''hasOwnProperty'',
      ''__lookupGetter__'', ''__lookupSetter__'', ''isPrototypeOf'',
      ''propertyIsEnumerable'', ''toString'', ''valueOf'', ''toLocaleString'']"

text \<open>
  What a key that is not an own property reads from the prototype: from
  \<^verbatim>\<open>Object.prototype\<close>, or from the entry that replaced it and then from
  \<^verbatim>\<open>Object.prototype\<close>.
\<close>

definition inherited :: "media_entry option \<Rightarrow> string \<Rightarrow> property" where
  "inherited pr k =
     (case pr of
        None \<Rightarrow>
          if k = ''__proto__'' \<or> k \<in> set object_prototype_names then Foreign else Missing
      | Some p \<Rightarrow>
          if k = ''__proto__'' then Entry p
          else if k = ''id'' then
            (case entry_id p of
               None \<Rightarrow> Missing
             | Some i \<Rightarrow> if i = 0 then Missing else Foreign)
          else if k = ''url'' then (if entry_url p = [] then Missing else Foreign)
          else if k \<in> set object_prototype_names then Foreign
          else Missing)"

text \<open>\<^verbatim>\<open>obj[key]\<close>\<close>

definition get_prop :: "media_map \<Rightarrow> string \<Rightarrow> property" where
  "get_prop m k =
     (case own_props m k of
        Some e \<Rightarrow> Entry e
      | None \<Rightarrow> inherited (proto m) k)"

text \<open>\<^verbatim>\<open>obj[key] = entry\<close>\<close>

definition set_prop :: "media_map \<Rightarrow> string \<Rightarrow> media_entry \<Rightarrow> media_map" where
  "set_prop m k e =
     (if k = ''__proto__'' \<and> own_props m k = None then m\<lparr>proto := Some e\<rparr>
      else m\<lparr>own_props := (own_props m)(k \<mapsto> e)\<rparr>)"

section \<open>Errors, requests and the state of a session\<close>

text \<open>
  A failed request: the status of the response when there was one
  (\<^verbatim>\<open>err.response?.status\<close>), the message of the error, and the message in the
  body of the response (\<^verbatim>\<open>err.response?.data?.message\<close>, empty when there is none).
\<close>

datatype failure = Failure (status: "nat option") (reason: string) (data_message: string)

text \<open>
  What the program can throw: an \<^verbatim>\<open>Error\<close> it creates itself with a message, the
  error of a failed request rethrown as it is, a \<^verbatim>\<open>TypeError\<close> of the runtime, or
  the value \<^verbatim>\<open>undefined\<close>.
\<close>

datatype error =
    Error string
  | RequestFailed failure
  | TypeError string
  | Undefined

fun response_status :: "error \<Rightarrow> nat option" where
  "response_status (RequestFailed f) = status f"
| "response_status _ = None"

text \<open>
  An item of the media endpoint, and what \<^verbatim>\<open>findMediaInCache\<close> returns; \<open>item_id\<close> is
  \<open>None\<close> when the object has no \<^verbatim>\<open>id\<close>.
\<close>

record wp_item =
  item_id :: "int option"
  source_url :: string
  title_rendered :: string
  large_source_url :: string

text \<open>Every request to the outside and every pause, in the order they happen.\<close>

datatype event =
    GetMediaPage nat
  | SearchMedia string
  | PostMedia string nat string
  | PatchMediaAlt "int option" string
  | Sleep nat
  | GetPage int
  | PatchPage int string
  | DriveListFolders string
  | DriveListImages string
  | DriveDownload string

text \<open>
  The state of one \<^verbatim>\<open>createWp\<close> client and of what it touches: the variables of
  the closure (\<open>baseUrl\<close>, \<open>refreshCache\<close>, \<open>mediaCache\<close>, which starts as
  \<^verbatim>\<open>null\<close>), the cache file as \<^verbatim>\<open>loadCache\<close> would read it (\<open>None\<close> when it is
  absent or does not parse), whether writing it succeeds, the value of
  \<^verbatim>\<open>Date.now()\<close>, and the requests made so far.
\<close>

record wp =
  baseUrl :: string
  refreshCache :: bool
  mediaCache :: "media_map option"
  cache_file :: "disk_cache option"
  cache_file_writable :: bool
  clock :: int
  trace :: "event list"

definition emit :: "event \<Rightarrow> wp \<Rightarrow> wp" where
  "emit e s = s\<lparr>trace := trace s @ [e]\<rparr>"

definition loadCache :: "wp \<Rightarrow> disk_cache option" where
  "loadCache s = cache_file s"

text \<open>\<^verbatim>\<open>saveCache\<close> catches a failed write and goes on.\<close>

definition saveCache :: "disk_cache \<Rightarrow> wp \<Rightarrow> wp" where
  "saveCache cache s = (if cache_file_writable s then s\<lparr>cache_file := Some cache\<rparr> else s)"

text \<open>
  \<^verbatim>\<open>{ id: x.id, source_url: x.url }\<close> for a value \<open>x\<close> read from the cache that counted
  as true: both are \<^verbatim>\<open>undefined\<close> when \<open>x\<close> is not an entry.
\<close>

definition cached_item :: "property \<Rightarrow> wp_item" where
  "cached_item x =
     (case x of
        Entry e \<Rightarrow>
          \<lparr>item_id = entry_id e, source_url = entry_url e, title_rendered = [],
           large_source_url = []\<rparr>
      | _ \<Rightarrow>
          \<lparr>item_id = None, source_url = [], title_rendered = [], large_source_url = []\<rparr>)"

definition findMediaInCache :: "string \<Rightarrow> wp \<Rightarrow> wp_item option" where
  "findMediaInCache filename s =
     (case mediaCache s of
        None \<Rightarrow> None
      | Some m \<Rightarrow>
          (let nameLc = toLowerCase filename;
               nameNoExtLc = toLowerCase (stripExt filename)
           in if get_prop m nameLc \<noteq> Missing then Some (cached_item (get_prop m nameLc))
              else if get_prop m nameNoExtLc \<noteq> Missing
              then Some (cached_item (get_prop m nameNoExtLc))
              else None))"

text \<open>
  \<^verbatim>\<open>addToCache\<close> assigns the entry to the two keys of the object in memory, then reads
  the cache file again (or starts a fresh cache), assigns the entry to the two keys of
  its \<^verbatim>\<open>media\<close> and saves it; what is saved of \<^verbatim>\<open>media\<close> is its own properties. When
  the file parses to something without a \<^verbatim>\<open>media\<close> object, the assignment into it
  throws; the object in memory has been updated by then.
\<close>

definition addToCache ::
  "string \<Rightarrow> int option \<Rightarrow> string \<Rightarrow> wp \<Rightarrow> error option \<times> wp" where
  "addToCache filename i url s =
     (let m = (case mediaCache s of None \<Rightarrow> empty_object | Some m \<Rightarrow> m);
          nameLc = toLowerCase filename;
          nameNoExtLc = toLowerCase (stripExt filename);
          e = \<lparr>entry_id = i, entry_url = url\<rparr>;
          s1 = s\<lparr>mediaCache := Some (set_prop (set_prop m nameLc e) nameNoExtLc e)\<rparr>;
          diskCache =
            (case loadCache s1 of
               None \<Rightarrow> \<lparr>wpBaseUrl = Some (baseUrl s1), lastUpdated = Some (clock s1),
                         media = Some Map.empty\<rparr>
             | Some c \<Rightarrow> c)
      in case media diskCache of
           None \<Rightarrow>
             (Some (TypeError (''Cannot set properties of undefined (setting '' @ [CHR 0x27]
                      @ nameLc @ [CHR 0x27] @ '')'')), s1)
         | Some dm \<Rightarrow>
             (None,
              saveCache
                (diskCache\<lparr>media :=
                              Some (own_props
                                (set_prop (set_prop (from_json dm) nameLc e) nameNoExtLc e)),
                            lastUpdated := Some (clock s1)\<rparr>) s1))"

text \<open>
  Files and folders of the Drive listing, and a page of the site. A missing or empty
  \<^verbatim>\<open>name\<close> or \<^verbatim>\<open>description\<close> is the empty string; the content of a page is
  \<^verbatim>\<open>content.raw\<close> and \<^verbatim>\<open>content.rendered\<close>.
\<close>

record drive_folder =
  folder_id :: string
  folder_name :: string

record drive_file =
  file_id :: string
  file_name :: string
  file_description :: string

record wp_page =
  content_raw :: string
  content_rendered :: string

type_synonym buffer = string

text \<open>
  The answers of the outside world, each as a function of the requests made before it
  and of the request itself.
  \<^item> \<open>basenameFromUrl\<close> is the last path segment of a URL as the platform's URL parser
    gives it.
  \<^item> \<open>get_media_page\<close> answers \<^verbatim>\<open>GET /wp/v2/media?per_page=100&page=n\<close> with the items
    and the value of \<^verbatim>\<open>parseInt(headers['x-wp-totalpages'] || '1', 10)\<close>, \<open>None\<close>
    for \<^verbatim>\<open>NaN\<close>.
  \<^item> \<open>search_media\<close>, \<open>post_media\<close>, \<open>patch_media_alt\<close>, \<open>get_page\<close> and
    \<open>patch_page\<close> answer the other requests of the client.
  \<^item> \<open>create_drive\<close> is the error \<^verbatim>\<open>createDrive\<close> throws, if any;
    \<open>drive_list_folders\<close> and \<open>drive_list_images\<close> are what \<^verbatim>\<open>listSubFolders\<close> and
    \<^verbatim>\<open>listImagesInFolder\<close> return or throw; \<open>drive_download\<close> is
    \<^verbatim>\<open>downloadDriveFile\<close>.
  \<^item> \<open>sort_files\<close> is \<^verbatim>\<open>files.sort(pickOrder(order))\<close>, left to the platform's
    collation; \<open>resize\<close> is what \<^verbatim>\<open>resizeImageIfNeeded\<close> does with the image library
    when the maximal size is positive.
\<close>

record env =
  basenameFromUrl :: "string \<Rightarrow> string"
  get_media_page :: "event list \<Rightarrow> nat \<Rightarrow> failure + (wp_item list \<times> int option)"
  search_media :: "event list \<Rightarrow> string \<Rightarrow> failure + wp_item list"
  post_media :: "event list \<Rightarrow> string \<Rightarrow> buffer \<Rightarrow> string \<Rightarrow> failure + wp_item"
  patch_media_alt :: "event list \<Rightarrow> int option \<Rightarrow> string \<Rightarrow> failure option"
  get_page :: "event list \<Rightarrow> int \<Rightarrow> failure + wp_page"
  patch_page :: "event list \<Rightarrow> int \<Rightarrow> string \<Rightarrow> failure option"
  create_drive :: "error option"
  drive_list_folders :: "event list \<Rightarrow> string \<Rightarrow> failure + drive_folder list"
  drive_list_images :: "event list \<Rightarrow> string \<Rightarrow> failure + drive_file list"
  drive_download :: "event list \<Rightarrow> string \<Rightarrow> failure + buffer"
  sort_files :: "string \<Rightarrow> drive_file list \<Rightarrow> drive_file list"
  resize :: "buffer \<Rightarrow> int \<Rightarrow> error + buffer"

definition auth_failed_searching :: string where
  "auth_failed_searching =
     ''WordPress authentication failed (401) while searching media. Check your WP_USERNAME and WP_APP_PASSWORD.''"

text \<open>The loop of \<^verbatim>\<open>findMediaByFilename\<close> over the items of the search.\<close>

fun match_items :: "env \<Rightarrow> string \<Rightarrow> wp_item list \<Rightarrow> wp \<Rightarrow> (error + wp_item option) \<times> wp" where
  "match_items en filename [] s = (Inr None, s)"
| "match_items en filename (it # items) s =
     (let nameLc = toLowerCase filename;
          nameNoExtLc = toLowerCase (stripExt filename);
          src = source_url it;
          base = toLowerCase (basenameFromUrl en src)
      in if base = nameLc then
           (case addToCache filename (item_id it) src s of
              (Some e, s') \<Rightarrow> (Inl e, s')
            | (None, s') \<Rightarrow> (Inr (Some it), s'))
         else
           (let titleText = toLowerCase (trim (strip_tags (title_rendered it)))
            in if titleText = nameNoExtLc then
                 (case addToCache filename (item_id it) src s of
                    (Some e, s') \<Rightarrow> (Inl e, s')
                  | (None, s') \<Rightarrow> (Inr (Some it), s'))
               else match_items en filename items s))"

definition findMediaByFilename :: "env \<Rightarrow> string \<Rightarrow> wp \<Rightarrow> (error + wp_item option) \<times> wp" where
  "findMediaByFilename en filename s =
     (case findMediaInCache filename s of
        Some cached \<Rightarrow> (Inr (Some cached), s)
      | None \<Rightarrow>
          (let nameNoExtLc = toLowerCase (stripExt filename);
               s1 = emit (SearchMedia nameNoExtLc) s
           in case search_media en (trace s) nameNoExtLc of
                Inl f \<Rightarrow>
                  if status f = Some 401 then (Inl (Error auth_failed_searching), s1)
                  else match_items en filename [] s1
              | Inr items \<Rightarrow> match_items en filename items s1))"

text \<open>
  \<^verbatim>\<open>createWp\<close>: a new client, its \<^verbatim>\<open>mediaCache\<close> still \<^verbatim>\<open>null\<close>, in a world with
  the given cache file and clock.
\<close>

definition createWp :: "string \<Rightarrow> bool \<Rightarrow> disk_cache option \<Rightarrow> bool \<Rightarrow> int \<Rightarrow> wp" where
  "createWp base refresh file writable now =
     \<lparr>baseUrl = base, refreshCache = refresh, mediaCache = None, cache_file = file,
      cache_file_writable = writable, clock = now, trace = []\<rparr>"

section \<open>Uploading with retries\<close>

definition digit :: "nat \<Rightarrow> char" where
  "digit n = ''0123456789'' ! n"

fun show_nat :: "nat \<Rightarrow> string" where
  "show_nat n =
     (if n < 10 then [digit n]
      else show_nat (n div 10) @ [digit (n mod 10)])"

text \<open>
  \<^verbatim>\<open>(buf.length / (1024 * 1024)).toFixed(2)\<close>: the quotient is exact in floating point
  (a division by a power of two), and \<^verbatim>\<open>toFixed(2)\<close> rounds it to the nearest
  hundredth, a tie going up.
\<close>

definition fileSizeMB :: "nat \<Rightarrow> string" where
  "fileSizeMB len =
     (let n = (100 * len + 524288) div 1048576
      in show_nat (n div 100) @ ''.'' @
         [digit (n mod 100 div 10), digit (n mod 10)])"

definition auth_failed_uploading :: string where
  "auth_failed_uploading =
     ''WordPress authentication failed (401) while uploading media. Check your WP_USERNAME and WP_APP_PASSWORD. The user may also lack permission to upload media.''"

definition unavailable_message :: "string \<Rightarrow> nat \<Rightarrow> nat \<Rightarrow> string" where
  "unavailable_message filename len retries =
     ''WordPress server returned 503 Service Unavailable while uploading '' @ [CHR 0x22] @
     filename @ [CHR 0x22] @ '' ('' @ fileSizeMB len @ ''MB) after '' @ show_nat retries @
     '' retries. The server may be overloaded or have timeout issues.''"

definition delays :: "nat list" where
  "delays = [2000, 5000, 10000]"

text \<open>\<^verbatim>\<open>delays[attempt] || delays[delays.length - 1]\<close>\<close>

definition retry_delay :: "nat \<Rightarrow> nat" where
  "retry_delay attempt =
     (if attempt < length delays \<and> delays ! attempt \<noteq> 0 then delays ! attempt
      else delays ! (length delays - 1))"

text \<open>
  The \<^verbatim>\<open>try\<close> block of \<^verbatim>\<open>uploadMedia\<close>: the upload, the update of the alternative
  text when there is one, and the registration in the cache. Whatever is thrown inside
  is caught by the loop.
\<close>

definition try_upload ::
  "env \<Rightarrow> buffer \<Rightarrow> string \<Rightarrow> string \<Rightarrow> string \<Rightarrow> wp \<Rightarrow> (error + wp_item) \<times> wp" where
  "try_upload en buf filename caption alt s =
     (let s1 = emit (PostMedia filename (length buf) caption) s
      in case post_media en (trace s) filename buf caption of
           Inl f \<Rightarrow> (Inl (RequestFailed f), s1)
         | Inr med \<Rightarrow>
             (let patched =
                    (if alt \<noteq> [] then patch_media_alt en (trace s1) (item_id med) alt
                     else None);
                  s2 = (if alt \<noteq> [] then emit (PatchMediaAlt (item_id med) alt) s1 else s1)
              in case patched of
                   Some f \<Rightarrow> (Inl (RequestFailed f), s2)
                 | None \<Rightarrow>
                     (case addToCache filename (item_id med) (source_url med) s2 of
                        (Some e, s3) \<Rightarrow> (Inl e, s3)
                      | (None, s3) \<Rightarrow> (Inr med, s3))))"

text \<open>
  The loop \<^verbatim>\<open>for (let attempt = 0; attempt <= retries; attempt++)\<close>, from the given
  value of \<^verbatim>\<open>attempt\<close> and of \<^verbatim>\<open>lastError\<close> on.
\<close>

function uploadMedia_loop ::
  "env \<Rightarrow> buffer \<Rightarrow> string \<Rightarrow> string \<Rightarrow> string \<Rightarrow> nat \<Rightarrow> nat \<Rightarrow> error option \<Rightarrow> wp
     \<Rightarrow> (error + wp_item) \<times> wp" where
  "uploadMedia_loop en buf filename caption alt retries attempt lastError s =
     (if attempt \<le> retries then
        (case try_upload en buf filename caption alt s of
           (Inr med, s1) \<Rightarrow> (Inr med, s1)
         | (Inl err, s1) \<Rightarrow>
             if response_status err = Some 401 then (Inl (Error auth_failed_uploading), s1)
             else if (response_status err = Some 503 \<or> response_status err = Some 429
                      \<or> response_status err = None) \<and> attempt < retries
             then uploadMedia_loop en buf filename caption alt retries (Suc attempt) (Some err)
                    (emit (Sleep (retry_delay attempt)) s1)
             else if response_status err = Some 503
             then (Inl (Error (unavailable_message filename (length buf) retries)), s1)
             else (Inl err, s1))
      else (Inl (case lastError of None \<Rightarrow> Undefined | Some e \<Rightarrow> e), s))"
  by pat_completeness auto
termination
  by (relation "measure (\<lambda>(en, buf, filename, caption, alt, retries, attempt, lastError, s).
        Suc retries - attempt)") auto

definition uploadMedia ::
  "env \<Rightarrow> buffer \<Rightarrow> string \<Rightarrow> string \<Rightarrow> string \<Rightarrow> nat \<Rightarrow> wp \<Rightarrow> (error + wp_item) \<times> wp" where
  "uploadMedia en buf filename caption alt retries s =
     uploadMedia_loop en buf filename caption alt retries 0 None s"

declare uploadMedia_loop.simps [simp del]

text \<open>The pauses and the uploads in a list of events.\<close>

fun sleeps :: "event list \<Rightarrow> nat list" where
  "sleeps [] = []"
| "sleeps (Sleep d # evs) = d # sleeps evs"
| "sleeps (_ # evs) = sleeps evs"

fun is_post :: "event \<Rightarrow> bool" where
  "is_post (PostMedia f n c) = True"
| "is_post _ = False"

text \<open>
  The uploads and pauses of the attempts \<open>attempt\<close>, \<dots>, \<open>retries - 1\<close> when each of
  them fails and is retried.
\<close>

definition exhausted_trace :: "string \<Rightarrow> nat \<Rightarrow> string \<Rightarrow> nat \<Rightarrow> nat \<Rightarrow> event list" where
  "exhausted_trace filename len caption attempt retries =
     concat (map (\<lambda>k. [PostMedia filename len caption, Sleep (retry_delay k)]) [attempt..<retries])"

section \<open>Rendering the page content\<close>

definition dq :: string where
  "dq = [CHR 0x22]"

definition nl :: string where
  "nl = [CHR 0x0A]"

text \<open>\<^verbatim>\<open>xs.join(sep)\<close>\<close>

fun join :: "string \<Rightarrow> string list \<Rightarrow> string" where
  "join sep [] = []"
| "join sep [x] = x"
| "join sep (x # y # ys) = x @ sep @ join sep (y # ys)"

text \<open>A number, and an identifier, in a template literal.\<close>

definition show_int :: "int \<Rightarrow> string" where
  "show_int i = (if i < 0 then CHR ''-'' # show_nat (nat (- i)) else show_nat (nat i))"

definition show_id :: "int option \<Rightarrow> string" where
  "show_id i = (case i of None \<Rightarrow> ''undefined'' | Some n \<Rightarrow> show_int n)"

record attachment =
  att_id :: "int option"
  att_url :: string
  att_alt :: string

record page_section =
  section_name :: string
  attachments :: "attachment list"

definition makeMasonryStyles :: string where
  "makeMasonryStyles =
     join nl
       [''<!-- wp:html -->'',
        ''<style>'',
        ''.masonry-gallery.wp-block-gallery {'',
        ''    display: block !important;'',
        ''    column-count: 3;'',
        ''    column-gap: 10px;'',
        ''}'',
        ''.masonry-gallery.wp-block-gallery .wp-block-image {'',
        ''    break-inside: avoid;'',
        ''    margin-bottom: 10px !important;'',
        ''    width: 100% !important;'',
        ''}'',
        ''.masonry-gallery.wp-block-gallery .wp-block-image img {'',
        ''    width: 100%;'',
        ''    height: auto !important;'',
        ''    object-fit: contain;'',
        ''    border-radius: 4px;'',
        ''}'',
        ''.masonry-gallery.wp-block-gallery .wp-block-image figure {'',
        ''    margin: 0;'',
        ''    height: auto !important;'',
        ''}'',
        ''@media (max-width: 900px) {'',
        ''    .masonry-gallery.wp-block-gallery { column-count: 2; }'',
        ''}'',
        ''@media (max-width: 500px) {'',
        ''    .masonry-gallery.wp-block-gallery { column-count: 1; }'',
        ''}'',
        ''</style>'',
        ''<!-- /wp:html -->'']"

definition image_block :: "string \<Rightarrow> attachment \<Rightarrow> string" where
  "image_block groupId a =
     ''<!-- wp:image {'' @ dq @ ''id'' @ dq @ '':'' @ show_id (att_id a) @ '','' @ dq
     @ ''sizeSlug'' @ dq @ '':'' @ dq @ ''large'' @ dq @ '','' @ dq @ ''linkDestination''
     @ dq @ '':'' @ dq @ ''media'' @ dq @ '','' @ dq @ ''lightbox'' @ dq @ '':{'' @ dq
     @ ''enabled'' @ dq @ '':true,'' @ dq @ ''group'' @ dq @ '':'' @ dq @ groupId @ dq
     @ ''}} -->'' @ nl @ ''<figure class='' @ dq @ ''wp-block-image size-large'' @ dq
     @ ''><a href='' @ dq @ att_url a @ dq @ ''><img src='' @ dq @ att_url a @ dq
     @ '' alt='' @ dq @ att_alt a @ dq @ '' class='' @ dq @ ''wp-image-''
     @ show_id (att_id a) @ dq @ ''/></a></figure>'' @ nl @ ''<!-- /wp:image -->''"

definition makeGalleryBlock :: "attachment list \<Rightarrow> string \<Rightarrow> string" where
  "makeGalleryBlock atts groupId =
     ''<!-- wp:gallery {'' @ dq @ ''linkTo'' @ dq @ '':'' @ dq @ ''media'' @ dq @ '',''
     @ dq @ ''lightbox'' @ dq @ '':{'' @ dq @ ''enabled'' @ dq @ '':true,'' @ dq
     @ ''group'' @ dq @ '':'' @ dq @ groupId @ dq @ ''},'' @ dq @ ''className'' @ dq
     @ '':'' @ dq @ ''masonry-gallery'' @ dq @ ''} -->'' @ nl @ ''<figure class='' @ dq
     @ ''wp-block-gallery has-nested-images columns-default masonry-gallery'' @ dq @ ''>''
     @ nl @ join nl (map (image_block groupId) atts) @ nl @ ''</figure>'' @ nl
     @ ''<!-- /wp:gallery -->''"

text \<open>
  \<^verbatim>\<open>makeAnchorId\<close>: lower case, every run of characters other than \<^verbatim>\<open>a-z0-9\<close>
  replaced by one hyphen, then a hyphen at the start and a hyphen at the end removed.
  The flag of \<open>hyphenate\<close> says whether the character before was part of such a run.
\<close>

definition is_lower_alnum :: "char \<Rightarrow> bool" where
  "is_lower_alnum c =
     (let n = (of_char c :: nat) in (97 \<le> n \<and> n \<le> 122) \<or> (48 \<le> n \<and> n \<le> 57))"

fun hyphenate :: "bool \<Rightarrow> string \<Rightarrow> string" where
  "hyphenate _ [] = []"
| "hyphenate in_run (c # cs) =
     (if is_lower_alnum c then c # hyphenate False cs
      else if in_run then hyphenate True cs
      else CHR ''-'' # hyphenate True cs)"

definition strip_hyphens :: "string \<Rightarrow> string" where
  "strip_hyphens s =
     (let s1 = (case s of [] \<Rightarrow> [] | c # cs \<Rightarrow> if c = CHR ''-'' then cs else s)
      in if s1 \<noteq> [] \<and> last s1 = CHR ''-'' then butlast s1 else s1)"

definition makeAnchorId :: "string \<Rightarrow> string" where
  "makeAnchorId txt = strip_hyphens (hyphenate False (toLowerCase txt))"

definition makeHeadingBlock :: "string \<Rightarrow> nat \<Rightarrow> string \<Rightarrow> string" where
  "makeHeadingBlock txt level anchor =
     (let anchorAttr =
            (if anchor \<noteq> [] then '','' @ dq @ ''anchor'' @ dq @ '':'' @ dq @ anchor @ dq
             else []);
          idAttr = (if anchor \<noteq> [] then '' id='' @ dq @ anchor @ dq else [])
      in
        ''<!-- wp:heading {'' @ dq @ ''level'' @ dq @ '':'' @ show_nat level @ anchorAttr
        @ ''} -->'' @ nl @ ''<h'' @ show_nat level @ idAttr @ '' class='' @ dq
        @ ''wp-block-heading'' @ dq @ ''>'' @ txt @ ''</h'' @ show_nat level @ ''>'' @ nl
        @ ''<!-- /wp:heading -->'')"

definition makeSpacerBlock :: "nat \<Rightarrow> string" where
  "makeSpacerBlock height =
     ''<!-- wp:spacer {'' @ dq @ ''height'' @ dq @ '':'' @ dq @ show_nat height @ ''px''
     @ dq @ ''} -->'' @ nl @ ''<div style='' @ dq @ ''height:'' @ show_nat height @ ''px''
     @ dq @ '' aria-hidden='' @ dq @ ''true'' @ dq @ '' class='' @ dq @ ''wp-block-spacer''
     @ dq @ ''></div>'' @ nl @ ''<!-- /wp:spacer -->''"

definition toc_option :: "page_section \<Rightarrow> string" where
  "toc_option sec =
     (let anchor = makeAnchorId (section_name sec)
      in ''<option value='' @ dq @ ''#'' @ anchor @ dq @ ''>'' @ section_name sec @ ''</option>'')"

definition makeTocBlock :: "page_section list \<Rightarrow> string" where
  "makeTocBlock sections =
     (let options = join nl (map toc_option sections);
          dropdownHtml =
            ''<div class='' @ dq @ ''toc-dropdown'' @ dq @ '' style='' @ dq
            @ ''margin-bottom: 1.5em;'' @ dq @ ''>'' @ nl @ ''<label for='' @ dq
            @ ''toc-select'' @ dq @ '' style='' @ dq
            @ ''font-weight: bold; margin-right: 0.5em;'' @ dq @ ''>Aller '' @ [CHR 0xE0]
            @ '' la section:</label>'' @ nl @ ''<select id='' @ dq @ ''toc-select'' @ dq
            @ '' onchange='' @ dq @ ''if(this.value) window.location.hash = this.value;''
            @ dq @ '' style='' @ dq @ ''padding: 0.5em; font-size: 1em; min-width: 200px;''
            @ dq @ ''>'' @ nl @ ''<option value='' @ dq @ dq
            @ ''>-- Choisir une section --</option>'' @ nl @ options @ nl @ ''</select>''
            @ nl @ ''</div>''
      in ''<!-- wp:html -->'' @ nl @ dropdownHtml @ nl @ ''<!-- /wp:html -->'')"

definition section_block :: "page_section \<Rightarrow> string" where
  "section_block sec =
     (let anchor = makeAnchorId (section_name sec);
          heading = makeHeadingBlock (section_name sec) 2 anchor;
          gallery = makeGalleryBlock (attachments sec) ''all-photos''
      in heading @ nl @ nl @ gallery)"

definition makeSectionContent :: "page_section list \<Rightarrow> string" where
  "makeSectionContent sections =
     (let spacer = makeSpacerBlock 30
      in join (nl @ nl @ spacer @ nl @ nl) (map section_block sections))"

definition makePageContent :: "page_section list \<Rightarrow> string" where
  "makePageContent sections =
     (let styles = makeMasonryStyles;
          toc = makeTocBlock sections;
          spacerAfterToc = makeSpacerBlock 50;
          sectionContent = makeSectionContent sections
      in styles @ nl @ nl @ toc @ nl @ nl @ spacerAfterToc @ nl @ nl @ sectionContent)"

section \<open>Merging the new content into the page\<close>

definition starts_with :: "string \<Rightarrow> string \<Rightarrow> bool" where
  "starts_with p s = (take (length p) s = p)"

text \<open>
  The pattern of \<^verbatim>\<open>syncOnce\<close> is
  \<^verbatim>\<open>/<!--\s*wp:heading[\s\S]*<!--\s*\/wp:gallery\s*-->/g\<close>. Its three parts are matched
  at the start of a string; each function returns the number of characters matched.
  A greedy \<^verbatim>\<open>\s*\<close> before a literal that starts with no white space takes all the
  white space there is.
\<close>

definition match_heading_open :: "string \<Rightarrow> nat option" where
  "match_heading_open s =
     (if starts_with ''<!--'' s then
        (let w = length (takeWhile is_space (drop 4 s))
         in if starts_with ''wp:heading'' (drop (4 + w) s) then Some (4 + w + 10) else None)
      else None)"

definition match_gallery_close :: "string \<Rightarrow> nat option" where
  "match_gallery_close s =
     (if starts_with ''<!--'' s then
        (let w1 = length (takeWhile is_space (drop 4 s))
         in if starts_with ''/wp:gallery'' (drop (4 + w1) s) then
              (let w2 = length (takeWhile is_space (drop (4 + w1 + 11) s))
               in if starts_with ''-->'' (drop (4 + w1 + 11 + w2) s)
                  then Some (4 + w1 + 11 + w2 + 3) else None)
            else None)
      else None)"

text \<open>
  \<^verbatim>\<open>[\s\S]*<!--\s*\/wp:gallery\s*-->\<close> at the start of a string: the greedy star
  gives up characters from the end, so the closing marker found is the last one.
\<close>

fun match_rest :: "string \<Rightarrow> nat option" where
  "match_rest [] = None"
| "match_rest (c # cs) =
     (case match_rest cs of
        Some n \<Rightarrow> Some (Suc n)
      | None \<Rightarrow> match_gallery_close (c # cs))"

definition match_here :: "string \<Rightarrow> nat option" where
  "match_here s =
     (case match_heading_open s of
        None \<Rightarrow> None
      | Some k \<Rightarrow> (case match_rest (drop k s) of None \<Rightarrow> None | Some n \<Rightarrow> Some (k + n)))"

text \<open>The first match of the pattern in a string: where it starts and where it ends.\<close>

fun exec_section :: "string \<Rightarrow> (nat \<times> nat) option" where
  "exec_section [] = None"
| "exec_section (c # cs) =
     (case match_here (c # cs) of
        Some e \<Rightarrow> Some (0, e)
      | None \<Rightarrow>
          (case exec_section cs of
             None \<Rightarrow> None
           | Some (a, b) \<Rightarrow> Some (Suc a, Suc b)))"

text \<open>
  \<^verbatim>\<open>prevContent.replace(sectionPattern, '')\<close> with the global flag: every match is
  removed, the search going on after the end of the match before.
\<close>

function remove_sections :: "string \<Rightarrow> string" where
  "remove_sections s =
     (case exec_section s of
        None \<Rightarrow> s
      | Some (a, b) \<Rightarrow> take a s @ remove_sections (drop b s))"
  by pat_completeness auto

lemma match_here_pos: "match_here s = Some e \<Longrightarrow> 0 < e"
  by (auto simp: match_here_def match_heading_open_def Let_def split: option.splits if_splits)

lemma exec_section_pos: "exec_section s = Some (a, b) \<Longrightarrow> 0 < b"
  by (induction s arbitrary: a b) (auto split: option.splits dest: match_here_pos)

lemma exec_section_nonempty: "exec_section s = Some (a, b) \<Longrightarrow> s \<noteq> []"
  by (cases s) auto

termination remove_sections
proof (relation "measure length")
  show "wf (measure length)" by simp
next
  fix s :: string and x2 a b
  assume "exec_section s = Some x2" and "(a, b) = x2"
  then have "exec_section s = Some (a, b)" by simp
  then have "0 < b" and "s \<noteq> []"
    by (auto dest: exec_section_pos exec_section_nonempty)
  then show "(drop b s, s) \<in> measure length" by simp
qed

declare remove_sections.simps [simp del]

text \<open>
  The content written to the page, lines 589 to 607 of \<^verbatim>\<open>syncOnce\<close>: from the
  previous content of the page, the new page content and \<^verbatim>\<open>clearContent\<close>.
\<close>

definition mergeContent :: "string \<Rightarrow> string \<Rightarrow> bool \<Rightarrow> string" where
  "mergeContent prevContent newPageContent clearContent =
     (if clearContent then newPageContent
      else
        (let hasExistingSections = (exec_section prevContent \<noteq> None)
         in if hasExistingSections then
              (let newContent = trim (remove_sections prevContent)
               in if newContent \<noteq> [] then newContent @ [CHR 0x0A, CHR 0x0A] @ newPageContent
                  else newPageContent)
            else if prevContent \<noteq> [] then prevContent @ [CHR 0x0A, CHR 0x0A] @ newPageContent
            else newPageContent))"

subsection \<open>Text in which no match starts\<close>

text \<open>
  Three predicates for the proofs about the rendered content; none of them is part of
  the program. \<open>mismatch pat q\<close>: \<open>q\<close> differs from \<open>pat\<close> at a position that both have,
  so that no extension of \<open>q\<close> starts with \<open>pat\<close>. \<open>closed_at q\<close>: the opening
  \<^verbatim>\<open><!--\s*wp:heading\<close> matches at the start of no extension of \<open>q\<close>, and \<open>q\<close> alone
  shows it. \<open>all_closed p\<close>: this holds at every position of \<open>p\<close>.
\<close>

fun mismatch :: "string \<Rightarrow> string \<Rightarrow> bool" where
  "mismatch (p # ps) (c # cs) = (if p = c then mismatch ps cs else True)"
| "mismatch _ _ = False"

definition closed_at :: "string \<Rightarrow> bool" where
  "closed_at q =
     (if mismatch ''<!--'' q then True
      else if starts_with ''<!--'' q
      then mismatch ''wp:heading'' (dropWhile is_space (drop 4 q))
      else False)"

fun all_closed :: "string \<Rightarrow> bool" where
  "all_closed [] = True"
| "all_closed (c # cs) = (if closed_at (c # cs) then all_closed cs else False)"

text \<open>The positions of a match found after \<open>n\<close> skipped characters.\<close>

definition shift :: "nat \<Rightarrow> (nat \<times> nat) option \<Rightarrow> (nat \<times> nat) option" where
  "shift n r = (case r of None \<Rightarrow> None | Some (a, b) \<Rightarrow> Some (a + n, b + n))"

text \<open>
  \<open>ends_with m y\<close>: the text \<open>y\<close> ends with \<open>m\<close>. \<open>wrapped y\<close>: the text \<open>y\<close> starts
  with the opening comment of a heading block and ends with the closing comment of a
  gallery block.
\<close>

definition ends_with :: "string \<Rightarrow> string \<Rightarrow> bool" where
  "ends_with m y = (\<exists>z. y = z @ m)"

definition wrapped :: "string \<Rightarrow> bool" where
  "wrapped y = (\<exists>t. y = ''<!-- wp:heading {'' @ t @ ''<!-- /wp:gallery -->'')"

section \<open>The sync\<close>

definition auth_failed_fetching :: string where
  "auth_failed_fetching =
     ''WordPress authentication failed (401) while fetching media. Check your WP_USERNAME and WP_APP_PASSWORD.''"

definition auth_failed_page :: "string \<Rightarrow> string" where
  "auth_failed_page detail =
     ''WordPress authentication failed (401). Check your WP_USERNAME and WP_APP_PASSWORD. The REST API may also be blocked by a security plugin. Error: ''
     @ detail"

definition auth_failed_updating :: string where
  "auth_failed_updating =
     ''WordPress authentication failed (401) while updating page. Check your WP_USERNAME and WP_APP_PASSWORD. The user may also lack permission to edit pages.''"

text \<open>The body of the \<^verbatim>\<open>for\<close> loop of \<^verbatim>\<open>loadMediaCache\<close> over the items of a page.\<close>

fun index_items :: "env \<Rightarrow> wp_item list \<Rightarrow> media_map \<Rightarrow> media_map" where
  "index_items en [] m = m"
| "index_items en (it # items) m =
     (let src = source_url it;
          filename = toLowerCase (basenameFromUrl en src);
          e = \<lparr>entry_id = item_id it, entry_url = src\<rparr>;
          m1 = (if filename \<noteq> [] then set_prop m filename e else m);
          titleText = toLowerCase (trim (strip_tags (title_rendered it)));
          m2 = (if titleText \<noteq> [] \<and> get_prop m1 titleText = Missing
                then set_prop m1 titleText e else m1)
      in index_items en items m2)"

text \<open>
  The \<^verbatim>\<open>while (true)\<close> loop of \<^verbatim>\<open>loadMediaCache\<close>. The server decides how long it
  runs, so the model counts the pages down from a bound and is \<open>None\<close> when the bound
  is used up.
\<close>

fun fetch_media_pages :: "nat \<Rightarrow> env \<Rightarrow> nat \<Rightarrow> wp \<Rightarrow> (error option \<times> wp) option" where
  "fetch_media_pages 0 en page s = None"
| "fetch_media_pages (Suc fuel) en page s =
     (let s1 = emit (GetMediaPage page) s
      in case get_media_page en (trace s) page of
           Inl f \<Rightarrow>
             if status f = Some 401 then Some (Some (Error auth_failed_fetching), s1)
             else Some (None, s1)
         | Inr (items, totalPages) \<Rightarrow>
             if items = [] then Some (None, s1)
             else
               (let m = (case mediaCache s1 of None \<Rightarrow> empty_object | Some m \<Rightarrow> m);
                    s2 = s1\<lparr>mediaCache := Some (index_items en items m)\<rparr>
                in case totalPages of
                     None \<Rightarrow> fetch_media_pages fuel en (Suc page) s2
                   | Some t \<Rightarrow>
                       if t \<le> int page then Some (None, s2)
                       else fetch_media_pages fuel en (Suc page) s2))"

text \<open>
  \<^verbatim>\<open>loadMediaCache\<close>: the \<^verbatim>\<open>media\<close> object of a valid cache file as it was parsed, or
  a new object filled from the site and saved, its own properties that is.
\<close>

definition loadMediaCache :: "nat \<Rightarrow> env \<Rightarrow> wp \<Rightarrow> (error option \<times> wp) option" where
  "loadMediaCache fuel en s =
     (let diskCache = loadCache s
      in if \<not> refreshCache s \<and> isCacheValid (clock s) diskCache (baseUrl s) then
           (case diskCache of
              None \<Rightarrow> Some (Some (TypeError ''Cannot read properties of null (reading 'media')''), s)
            | Some c \<Rightarrow> Some (None, s\<lparr>mediaCache := map_option from_json (media c)\<rparr>))
         else
           (case fetch_media_pages fuel en 1 (s\<lparr>mediaCache := Some empty_object\<rparr>) of
              None \<Rightarrow> None
            | Some (Some e, s1) \<Rightarrow> Some (Some e, s1)
            | Some (None, s1) \<Rightarrow>
                Some (None,
                  saveCache
                    \<lparr>wpBaseUrl = Some (baseUrl s1), lastUpdated = Some (clock s1),
                     media = map_option own_props (mediaCache s1)\<rparr> s1)))"

definition getPage :: "env \<Rightarrow> int \<Rightarrow> wp \<Rightarrow> (error + wp_page) \<times> wp" where
  "getPage en pageId s =
     (let s1 = emit (GetPage pageId) s
      in case get_page en (trace s) pageId of
           Inl f \<Rightarrow>
             if status f = Some 401
             then (Inl (Error (auth_failed_page
                     (if data_message f \<noteq> [] then data_message f else reason f))), s1)
             else (Inl (RequestFailed f), s1)
         | Inr page \<Rightarrow> (Inr page, s1))"

definition patchPageContent :: "env \<Rightarrow> int \<Rightarrow> string \<Rightarrow> wp \<Rightarrow> error option \<times> wp" where
  "patchPageContent en pageId content s =
     (let s1 = emit (PatchPage pageId content) s
      in case patch_page en (trace s) pageId content of
           Some f \<Rightarrow>
             if status f = Some 401 then (Some (Error auth_failed_updating), s1)
             else (Some (RequestFailed f), s1)
         | None \<Rightarrow> (None, s1))"

text \<open>
  The arguments of \<^verbatim>\<open>syncOnce\<close>. An empty string is a missing one; \<open>wpPageId\<close> is
  \<open>None\<close> when it is \<^verbatim>\<open>NaN\<close> or missing.
\<close>

record params =
  driveFolderId :: string
  wpPageId :: "int option"
  order :: string
  dryRun :: bool
  clearContent :: bool
  refresh :: bool
  maxSize :: int
  uploadLimit :: int
  wpBase :: string
  wpUser :: string
  wpPass :: string

text \<open>
  The variables \<^verbatim>\<open>sections\<close>, \<^verbatim>\<open>toUpload\<close>, \<^verbatim>\<open>reused\<close> and \<^verbatim>\<open>totalUploaded\<close> of
  \<^verbatim>\<open>syncOnce\<close>; an entry of \<^verbatim>\<open>toUpload\<close> and \<^verbatim>\<open>reused\<close> is a folder name and a file
  name.
\<close>

record progress =
  sections :: "page_section list"
  toUpload :: "(string \<times> string) list"
  reused :: "(string \<times> string) list"
  totalUploaded :: nat

text \<open>
  \<^verbatim>\<open>resizeImageIfNeeded\<close>: the buffer as it is when \<^verbatim>\<open>maxSize\<close> is \<^verbatim>\<open>0\<close> or negative.
\<close>

definition resizeImageIfNeeded :: "env \<Rightarrow> buffer \<Rightarrow> int \<Rightarrow> error + buffer" where
  "resizeImageIfNeeded en buf maxSz = (if maxSz \<le> 0 then Inr buf else resize en buf maxSz)"

text \<open>The loop over the files of a folder; \<open>atts\<close> is \<^verbatim>\<open>attachments\<close>.\<close>

fun process_files ::
  "env \<Rightarrow> params \<Rightarrow> drive_folder \<Rightarrow> drive_file list \<Rightarrow> attachment list \<Rightarrow> progress \<Rightarrow> wp
     \<Rightarrow> (error + attachment list \<times> progress) \<times> wp" where
  "process_files en p folder [] atts pr s = (Inr (atts, pr), s)"
| "process_files en p folder (f # fs) atts pr s =
     (let filename = (if file_name f \<noteq> [] then file_name f else file_id f @ ''.jpg'');
          alt = stripExt filename
      in case findMediaByFilename en filename s of
           (Inl e, s1) \<Rightarrow> (Inl e, s1)
         | (Inr (Some existing), s1) \<Rightarrow>
             (let url = (if source_url existing \<noteq> [] then source_url existing
                         else large_source_url existing)
              in process_files en p folder fs
                   (atts @ [\<lparr>att_id = item_id existing, att_url = url, att_alt = alt\<rparr>])
                   (pr\<lparr>reused := reused pr @ [(folder_name folder, filename)]\<rparr>) s1)
         | (Inr None, s1) \<Rightarrow>
             if 0 < uploadLimit p \<and> uploadLimit p \<le> int (totalUploaded pr)
             then process_files en p folder fs atts pr s1
             else if dryRun p
             then process_files en p folder fs atts
                    (pr\<lparr>toUpload := toUpload pr @ [(folder_name folder, filename)],
                        totalUploaded := Suc (totalUploaded pr)\<rparr>) s1
             else
               (let s2 = emit (DriveDownload (file_id f)) s1
                in case drive_download en (trace s1) (file_id f) of
                     Inl fl \<Rightarrow> (Inl (RequestFailed fl), s2)
                   | Inr buf \<Rightarrow>
                       (case resizeImageIfNeeded en buf (maxSize p) of
                          Inl e \<Rightarrow> (Inl e, s2)
                        | Inr buf' \<Rightarrow>
                            (case uploadMedia en buf' filename (file_description f) alt 3 s2 of
                               (Inl e, s3) \<Rightarrow> (Inl e, s3)
                             | (Inr med, s3) \<Rightarrow>
                                 (let url = (if source_url med \<noteq> [] then source_url med
                                             else large_source_url med)
                                  in process_files en p folder fs
                                       (atts @ [\<lparr>att_id = item_id med, att_url = url,
                                                 att_alt = alt\<rparr>])
                                       (pr\<lparr>toUpload := toUpload pr
                                               @ [(folder_name folder, filename)],
                                           totalUploaded := Suc (totalUploaded pr)\<rparr>) s3)))))"

text \<open>The loop over the sub-folders.\<close>

fun process_folders ::
  "env \<Rightarrow> params \<Rightarrow> drive_folder list \<Rightarrow> progress \<Rightarrow> wp \<Rightarrow> (error + progress) \<times> wp" where
  "process_folders en p [] pr s = (Inr pr, s)"
| "process_folders en p (folder # folders) pr s =
     (let s1 = emit (DriveListImages (folder_id folder)) s
      in case drive_list_images en (trace s) (folder_id folder) of
           Inl fl \<Rightarrow> (Inl (RequestFailed fl), s1)
         | Inr files \<Rightarrow>
             (case process_files en p folder (sort_files en (order p) files) [] pr s1 of
                (Inl e, s2) \<Rightarrow> (Inl e, s2)
              | (Inr (atts, pr'), s2) \<Rightarrow>
                  process_folders en p folders
                    (if atts \<noteq> []
                     then pr'\<lparr>sections := sections pr'
                            @ [\<lparr>section_name = folder_name folder, attachments = atts\<rparr>]\<rparr>
                     else pr') s2))"

text \<open>What \<^verbatim>\<open>syncOnce\<close> returns.\<close>

record sync_result =
  uploadedCount :: nat
  reusedCount :: nat
  totalIdsInGallery :: nat
  sectionsCount :: nat
  section_counts :: "(string \<times> nat) list"
  pageId :: "int option"
  updated :: bool
  images_toUpload :: "(string \<times> string) list"
  images_reused :: "(string \<times> string) list"

definition make_result :: "params \<Rightarrow> progress \<Rightarrow> sync_result" where
  "make_result p pr =
     \<lparr>uploadedCount = length (toUpload pr),
      reusedCount = length (reused pr),
      totalIdsInGallery = sum_list (map (\<lambda>sec. length (attachments sec)) (sections pr)),
      sectionsCount = length (sections pr),
      section_counts = map (\<lambda>sec. (section_name sec, length (attachments sec))) (sections pr),
      pageId = wpPageId p,
      updated = (\<not> dryRun p),
      images_toUpload = toUpload pr,
      images_reused = reused pr\<rparr>"

text \<open>Step 3 of \<^verbatim>\<open>syncOnce\<close>: read the page, merge, write the page.\<close>

definition write_page :: "env \<Rightarrow> params \<Rightarrow> int \<Rightarrow> progress \<Rightarrow> wp \<Rightarrow> error option \<times> wp" where
  "write_page en p pid pr s =
     (case getPage en pid s of
        (Inl e, s1) \<Rightarrow> (Some e, s1)
      | (Inr page, s1) \<Rightarrow>
          (let prevContent = (if content_raw page \<noteq> [] then content_raw page
                              else content_rendered page);
               newPageContent = makePageContent (sections pr);
               newContent = mergeContent prevContent newPageContent (clearContent p)
           in patchPageContent en pid newContent s1))"

text \<open>
  \<^verbatim>\<open>syncOnce\<close>, in a world with the given cache file, clock and bound on the pages of
  the media listing. The result is \<open>None\<close> when the bound is used up, and otherwise what
  is thrown or returned, with the state of the client at that point.
\<close>

definition syncOnce ::
  "nat \<Rightarrow> env \<Rightarrow> params \<Rightarrow> disk_cache option \<Rightarrow> bool \<Rightarrow> int
     \<Rightarrow> ((error + sync_result) \<times> wp) option" where
  "syncOnce fuel en p file writable now =
     (let s0 = createWp (wpBase p) (refresh p) file writable now
      in if driveFolderId p = [] then Some (Inl (Error ''driveFolderId required''), s0)
         else
           (case wpPageId p of
              None \<Rightarrow> Some (Inl (Error ''wpPageId required''), s0)
            | Some pid \<Rightarrow>
                if pid = 0 then Some (Inl (Error ''wpPageId required''), s0)
                else if wpBase p = [] \<or> wpUser p = [] \<or> wpPass p = []
                then Some (Inl (Error ''WP credentials/baseUrl required''), s0)
                else
                  (case create_drive en of
                     Some e \<Rightarrow> Some (Inl e, s0)
                   | None \<Rightarrow>
                       (case loadMediaCache fuel en s0 of
                          None \<Rightarrow> None
                        | Some (Some e, s1) \<Rightarrow> Some (Inl e, s1)
                        | Some (None, s1) \<Rightarrow>
                            (let s2 = emit (DriveListFolders (driveFolderId p)) s1
                             in case drive_list_folders en (trace s1) (driveFolderId p) of
                                  Inl fl \<Rightarrow> Some (Inl (RequestFailed fl), s2)
                                | Inr subFolders \<Rightarrow>
                                    (case process_folders en p subFolders
                                            \<lparr>sections = [], toUpload = [], reused = [],
                                             totalUploaded = 0\<rparr> s2 of
                                       (Inl e, s3) \<Rightarrow> Some (Inl e, s3)
                                     | (Inr pr, s3) \<Rightarrow>
                                         if dryRun p then Some (Inr (make_result p pr), s3)
                                         else
                                           (case write_page en p pid pr s3 of
                                              (Some e, s4) \<Rightarrow> Some (Inl e, s4)
                                            | (None, s4) \<Rightarrow>
                                                Some (Inr (make_result p pr), s4))))))))"

text \<open>
  The \<^verbatim>\<open>handler\<close> from its call of \<^verbatim>\<open>syncOnce\<close> on, the arguments taken as parsed.
  The body of the response is the object given to \<^verbatim>\<open>JSON.stringify\<close>: either
  \<^verbatim>\<open>{ ok: true, result }\<close> or \<^verbatim>\<open>{ ok: false, error: err.message }\<close>. Reading the message
  of a thrown \<^verbatim>\<open>undefined\<close> throws in turn, and the handler then rejects.
\<close>

datatype response_body = ok_true sync_result | ok_false string

record response =
  statusCode :: nat
  body :: response_body

text \<open>\<^verbatim>\<open>err.message\<close>, which exists unless \<^verbatim>\<open>err\<close> is \<^verbatim>\<open>undefined\<close>.\<close>

fun message :: "error \<Rightarrow> string option" where
  "message (Error m) = Some m"
| "message (RequestFailed f) = Some (reason f)"
| "message (TypeError m) = Some m"
| "message Undefined = None"

definition handler ::
  "nat \<Rightarrow> env \<Rightarrow> params \<Rightarrow> disk_cache option \<Rightarrow> bool \<Rightarrow> int
     \<Rightarrow> ((error + response) \<times> wp) option" where
  "handler fuel en p file writable now =
     (case syncOnce fuel en p file writable now of
        None \<Rightarrow> None
      | Some (Inr result, s) \<Rightarrow> Some (Inr \<lparr>statusCode = 200, body = ok_true result\<rparr>, s)
      | Some (Inl err, s) \<Rightarrow>
          (case message err of
             Some m \<Rightarrow> Some (Inr \<lparr>statusCode = 500, body = ok_false m\<rparr>, s)
           | None \<Rightarrow>
               Some (Inl (TypeError ''Cannot read properties of undefined (reading 'message')''),
                     s)))"



text \<open>What a run ended with, and the requests it made.\<close>

definition outcome_of :: "(('a \<times> wp) option) \<Rightarrow> 'a option" where
  "outcome_of r = map_option fst r"

definition trace_of :: "(('a \<times> wp) option) \<Rightarrow> event list" where
  "trace_of r = (case r of None \<Rightarrow> [] | Some (out, s) \<Rightarrow> trace s)"

subsection \<open>The dry run, said in one pass\<close>











definition page_with_margins :: string where
  "page_with_margins =
     [CHR 0x0A] @ ''intro<!--wp:heading<!--/wp:gallery-->outro'' @ [CHR 0x0A]"

section \<open>Worlds to run the program in\<close>

text \<open>
  A world in which every request fails without a response and the Drive folder is
  empty, and variants of it. \<open>last_segment\<close> is what the source's fallback
  \<^verbatim>\<open>String(u).split('/')\<close> gives.
\<close>

definition last_segment :: "string \<Rightarrow> string" where
  "last_segment u = rev (takeWhile (\<lambda>c. c \<noteq> CHR ''/'') (rev u))"

definition offline :: env where
  "offline =
     \<lparr>basenameFromUrl = last_segment,
      get_media_page = (\<lambda>h n. Inl (Failure None ''socket hang up'' [])),
      search_media = (\<lambda>h q. Inl (Failure None ''socket hang up'' [])),
      post_media = (\<lambda>h f b c. Inl (Failure None ''socket hang up'' [])),
      patch_media_alt = (\<lambda>h i a. Some (Failure None ''socket hang up'' [])),
      get_page = (\<lambda>h i. Inl (Failure None ''socket hang up'' [])),
      patch_page = (\<lambda>h i c. Some (Failure None ''socket hang up'' [])),
      create_drive = None,
      drive_list_folders = (\<lambda>h f. Inr []),
      drive_list_images = (\<lambda>h f. Inr []),
      drive_download = (\<lambda>h f. Inl (Failure None ''socket hang up'' [])),
      sort_files = (\<lambda>ord fs. fs),
      resize = (\<lambda>b m. Inr b)\<rparr>"

definition post_always :: "nat \<Rightarrow> env" where
  "post_always st =
     offline\<lparr>post_media := (\<lambda>h f b c. Inl (Failure (Some st) ''Request failed'' []))\<rparr>"


text \<open>
  The folder \<open>Trip\<close> holds \<open>beach.jpg\<close>, which the site has already under the title
  \<open>beach\<close>, and \<open>sunset.jpg\<close>, which is new. Every request succeeds, except that
  writing the page fails when \<open>patch_fails\<close> is set.
\<close>

definition trip :: "bool \<Rightarrow> env" where
  "trip patch_fails =
     offline
       \<lparr>get_media_page :=
          (\<lambda>h n. Inr ([\<lparr>item_id = Some 7, source_url = ''http://wp/uploads/beach.jpg'',
                           title_rendered = ''beach'', large_source_url = []\<rparr>], Some 1)),
        search_media := (\<lambda>h q. Inr []),
        post_media :=
          (\<lambda>h f b c. Inr \<lparr>item_id = Some 8, source_url = ''http://wp/uploads/sunset.jpg'',
                           title_rendered = [], large_source_url = []\<rparr>),
        patch_media_alt := (\<lambda>h i a. None),
        get_page := (\<lambda>h i. Inr \<lparr>content_raw = [], content_rendered = []\<rparr>),
        patch_page :=
          (\<lambda>h i c. if patch_fails
                    then Some (Failure (Some 500) ''Request failed with status code 500'' [])
                    else None),
        drive_list_folders := (\<lambda>h f. Inr [\<lparr>folder_id = ''f1'', folder_name = ''Trip''\<rparr>]),
        drive_list_images :=
          (\<lambda>h f. Inr [\<lparr>file_id = ''i1'', file_name = ''beach.jpg'', file_description = []\<rparr>,
                        \<lparr>file_id = ''i2'', file_name = ''sunset.jpg'', file_description = []\<rparr>]),
        drive_download := (\<lambda>h f. Inr ''bytes'')\<rparr>"



text \<open>The same site and a Drive folder without sub-folders.\<close>

definition empty_drive :: "bool \<Rightarrow> env" where
  "empty_drive patch_fails = (trip patch_fails)\<lparr>drive_list_folders := (\<lambda>h f. Inr [])\<rparr>"

definition trip_params :: "bool \<Rightarrow> params" where
  "trip_params dry =
     \<lparr>driveFolderId = ''root'', wpPageId = Some 42, order = ''name_asc'', dryRun = dry,
      clearContent = False, refresh = False, maxSize = 0, uploadLimit = 0,
      wpBase = ''http://wp'', wpUser = ''user'', wpPass = ''secret''\<rparr>"

section \<open>Validity of the cache\<close>

text \<open>
  C8: \<open>isCacheValid\<close> holds exactly when the cache is present with its media map, its
  stored base URL is the current one, and its age (now minus \<open>lastUpdated\<close>, a missing
  \<open>lastUpdated\<close> counting as 0) is strictly below 24 hours. A cache written 25 hours ago
  is invalid, one written 23 hours ago under the same base URL is valid, one written
  exactly 24 hours ago is invalid, and a cache of another base URL is invalid whatever
  its age.
\<close>

theorem isCacheValid_iff:
  "isCacheValid now cache base =
     (\<exists>c m. cache = Some c \<and> media c = Some m \<and> wpBaseUrl c = Some base \<and>
        now - (case lastUpdated c of None \<Rightarrow> 0 | Some t \<Rightarrow> t) < 24 * 60 * 60 * 1000)
   \<and> \<not> isCacheValid now
         (Some \<lparr>wpBaseUrl = Some base, lastUpdated = Some (now - 25 * 60 * 60 * 1000),
                media = mm\<rparr>) base
   \<and> isCacheValid now
         (Some \<lparr>wpBaseUrl = Some base, lastUpdated = Some (now - 23 * 60 * 60 * 1000),
                media = Some m0\<rparr>) base
   \<and> \<not> isCacheValid now
         (Some \<lparr>wpBaseUrl = Some base, lastUpdated = Some (now - 24 * 60 * 60 * 1000),
                media = mm\<rparr>) base
   \<and> (other \<noteq> Some base \<longrightarrow>
        \<not> isCacheValid now
            (Some \<lparr>wpBaseUrl = other, lastUpdated = lu, media = mm\<rparr>) base)"
  by (auto simp: isCacheValid_def CACHE_MAX_AGE_MS_def split: option.splits)

theorem isCacheValid_iff_witness:
  "isCacheValid 100000000
     (Some \<lparr>wpBaseUrl = Some ''http://example.com'', lastUpdated = Some 96400000,
            media = Some Map.empty\<rparr>) ''http://example.com''
   \<and> \<not> isCacheValid 100000000
     (Some \<lparr>wpBaseUrl = Some ''http://other.com'', lastUpdated = Some 96400000,
            media = Some Map.empty\<rparr>) ''http://example.com''"
  using isCacheValid_iff [of 100000000
      "Some \<lparr>wpBaseUrl = Some ''http://example.com'', lastUpdated = Some 96400000,
            media = Some Map.empty\<rparr>" "''http://example.com''" None Map.empty
      "Some ''http://other.com''" "Some 96400000"]
    isCacheValid_iff [of 100000000 None "''http://example.com''" "Some Map.empty" Map.empty
      "Some ''http://other.com''" "Some 96400000"]
  by simp


section \<open>Lookups in the cache\<close>

lemmas object_simps =
  get_prop_def inherited_def set_prop_def empty_object_def from_json_def
  object_prototype_names_def









lemma lower_char_dot: "lower_char CHR ''.'' = CHR ''.''"
  by (simp add: lower_char_def)

lemma toLowerCase_dot: "CHR ''.'' \<in> set name \<Longrightarrow> CHR ''.'' \<in> set (toLowerCase name)"
proof -
  assume "CHR ''.'' \<in> set name"
  then have "lower_char CHR ''.'' \<in> lower_char ` set name" by (rule imageI)
  then show ?thesis unfolding lower_char_dot toLowerCase_def by simp
qed

lemma stripExt_no_dot: "CHR ''.'' \<notin> set name \<Longrightarrow> stripExt name = name"
proof -
  assume "CHR ''.'' \<notin> set name"
  then have t: "takeWhile (\<lambda>c. c \<noteq> CHR ''.'') (rev name) = rev name"
    by (intro takeWhile_eq_all_conv [THEN iffD2]) auto
  show ?thesis unfolding stripExt_def Let_def t by simp
qed

lemma get_prop_dotted:
  assumes "own_props m k = None" and "CHR ''.'' \<in> set k"
  shows "get_prop m k = Missing"
proof -
  have a: "k \<noteq> ''__proto__''" using assms(2) by auto
  have b: "k \<noteq> ''id''" using assms(2) by auto
  have c: "k \<noteq> ''url''" using assms(2) by auto
  have d: "k \<notin> set object_prototype_names"
    using assms(2) by (auto simp: object_prototype_names_def)
  have "inherited (proto m) k = Missing"
    by (simp add: inherited_def a b c d split: option.splits)
  with assms(1) show ?thesis by (simp add: get_prop_def)
qed

text \<open>
  A name that \<^verbatim>\<open>Object.prototype\<close> has is found in an empty cache: what is found is a
  function, and the item returned has no identifier and no address.
\<close>

lemma findMediaInCache_inherited:
  "findMediaInCache ''constructor'' (s\<lparr>mediaCache := Some empty_object\<rparr>) =
     Some \<lparr>item_id = None, source_url = [], title_rendered = [], large_source_url = []\<rparr>"
proof -
  have e: "toLowerCase ''constructor'' = ''constructor''"
    "stripExt ''constructor'' = ''constructor''"
    by code_simp+
  show ?thesis
    by (simp add: findMediaInCache_def Let_def e cached_item_def object_simps)
qed

text \<open>
  C7: when the loaded cache has an entry, as a property of its own, under the
  lower-cased file name or under the lower-cased name without extension,
  \<open>findMediaByFilename\<close> returns that entry (the full name first) and leaves the state
  as it was: no search request is recorded.
\<close>

theorem findMediaByFilename_cache_hit:
  assumes "mediaCache s = Some m"
    and "own_props m (toLowerCase filename) \<noteq> None
         \<or> own_props m (toLowerCase (stripExt filename)) \<noteq> None"
  shows "\<exists>e. (own_props m (toLowerCase filename) = Some e
               \<or> own_props m (toLowerCase filename) = None
                 \<and> own_props m (toLowerCase (stripExt filename)) = Some e)
           \<and> findMediaByFilename en filename s =
               (Inr (Some \<lparr>item_id = entry_id e, source_url = entry_url e, title_rendered = [],
                            large_source_url = []\<rparr>), s)"
proof (cases "own_props m (toLowerCase filename)")
  case (Some e)
  then have "get_prop m (toLowerCase filename) = Entry e"
    by (simp add: get_prop_def)
  with Some assms(1) show ?thesis
    by (simp add: findMediaByFilename_def findMediaInCache_def cached_item_def Let_def)
next
  case None
  with assms(2) obtain e where e: "own_props m (toLowerCase (stripExt filename)) = Some e"
    by auto
  with None have "toLowerCase filename \<noteq> toLowerCase (stripExt filename)" by auto
  then have "stripExt filename \<noteq> filename" by auto
  then have "CHR ''.'' \<in> set filename" using stripExt_no_dot [of filename] by auto
  then have "CHR ''.'' \<in> set (toLowerCase filename)" by (rule toLowerCase_dot)
  with None have g1: "get_prop m (toLowerCase filename) = Missing"
    by (rule get_prop_dotted)
  from e have g2: "get_prop m (toLowerCase (stripExt filename)) = Entry e"
    by (simp add: get_prop_def)
  from None e g1 g2 assms(1) show ?thesis
    by (simp add: findMediaByFilename_def findMediaInCache_def cached_item_def Let_def)
qed

theorem findMediaByFilename_cache_hit_witness:
  "findMediaByFilename offline ''Photo.JPG''
     ((createWp ''http://wp'' False None True 1000)
        \<lparr>mediaCache := Some (from_json
           [''photo'' \<mapsto> \<lparr>entry_id = Some 7, entry_url = ''http://wp/photo.jpg''\<rparr>])\<rparr>)
   = (Inr (Some \<lparr>item_id = Some 7, source_url = ''http://wp/photo.jpg'', title_rendered = [],
                 large_source_url = []\<rparr>),
      (createWp ''http://wp'' False None True 1000)
        \<lparr>mediaCache := Some (from_json
           [''photo'' \<mapsto> \<lparr>entry_id = Some 7, entry_url = ''http://wp/photo.jpg''\<rparr>])\<rparr>)"
proof -
  have e: "toLowerCase (stripExt ''Photo.JPG'') = ''photo''" "toLowerCase ''Photo.JPG'' = ''photo.jpg''"
    by code_simp+
  show ?thesis
    using findMediaByFilename_cache_hit [of
        "(createWp ''http://wp'' False None True 1000)
          \<lparr>mediaCache := Some (from_json
             [''photo'' \<mapsto> \<lparr>entry_id = Some 7, entry_url = ''http://wp/photo.jpg''\<rparr>])\<rparr>"
        "from_json [''photo'' \<mapsto> \<lparr>entry_id = Some 7, entry_url = ''http://wp/photo.jpg''\<rparr>]"
        "''Photo.JPG''" offline]
    by (simp add: e from_json_def)
qed

section \<open>Retries of an upload\<close>


lemma try_upload_post_fails:
  "post_media en (trace s) filename buf caption = Inl f \<Longrightarrow>
   try_upload en buf filename caption alt s =
     (Inl (RequestFailed f), emit (PostMedia filename (length buf) caption) s)"
  by (simp add: try_upload_def)

lemma exhausted_trace_step:
  "attempt < retries \<Longrightarrow>
   exhausted_trace filename len caption attempt retries =
     PostMedia filename len caption # Sleep (retry_delay attempt) #
     exhausted_trace filename len caption (Suc attempt) retries"
  by (simp add: exhausted_trace_def upt_conv_Cons)

lemma exhausted_trace_done [simp]: "exhausted_trace filename len caption retries retries = []"
  by (simp add: exhausted_trace_def)

lemma loop_exhausted:
  assumes fails: "\<And>h. \<exists>f. post_media en h filename buf caption = Inl f
                    \<and> (status f = Some 429 \<or> status f = Some 503 \<or> status f = None)"
  shows "attempt \<le> retries \<Longrightarrow>
    \<exists>f. post_media en
           (trace s @ exhausted_trace filename (length buf) caption attempt retries)
           filename buf caption = Inl f
      \<and> uploadMedia_loop en buf filename caption alt retries attempt lastError s =
         (Inl (if status f = Some 503
               then Error (unavailable_message filename (length buf) retries)
               else RequestFailed f),
          s\<lparr>trace := trace s @ exhausted_trace filename (length buf) caption attempt retries
                 @ [PostMedia filename (length buf) caption]\<rparr>)"
proof (induction "retries - attempt" arbitrary: attempt lastError s)
  case 0
  then have eq: "attempt = retries" by simp
  obtain f where f: "post_media en (trace s) filename buf caption = Inl f"
    and st: "status f = Some 429 \<or> status f = Some 503 \<or> status f = None"
    using fails by blast
  show ?case
    using f st
    by (subst uploadMedia_loop.simps) (auto simp: eq try_upload_post_fails emit_def)
next
  case (Suc n)
  then have lt: "attempt < retries" and n: "n = retries - Suc attempt"
    and le: "Suc attempt \<le> retries"
    by simp_all
  obtain f where f: "post_media en (trace s) filename buf caption = Inl f"
    and st: "status f = Some 429 \<or> status f = Some 503 \<or> status f = None"
    using fails by blast
  let ?s' = "emit (Sleep (retry_delay attempt)) (emit (PostMedia filename (length buf) caption) s)"
  have step: "uploadMedia_loop en buf filename caption alt retries attempt lastError s =
      uploadMedia_loop en buf filename caption alt retries (Suc attempt)
        (Some (RequestFailed f)) ?s'"
    using f st lt by (subst uploadMedia_loop.simps) (auto simp: try_upload_post_fails)
  have tr: "trace ?s' = trace s @ [PostMedia filename (length buf) caption,
      Sleep (retry_delay attempt)]"
    by (simp add: emit_def)
  from Suc.hyps(1)[OF n le, of ?s' "Some (RequestFailed f)"]
  show ?case
    unfolding step using lt by (simp add: tr exhausted_trace_step emit_def)
qed

lemma posts_exhausted_trace:
  "attempt \<le> retries \<Longrightarrow>
   length (filter is_post (exhausted_trace filename len caption attempt retries)) = retries - attempt"
  by (induction "retries - attempt" arbitrary: attempt) (simp_all add: exhausted_trace_step)

lemma sleeps_append: "sleeps (xs @ ys) = sleeps xs @ sleeps ys"
  by (induction xs rule: sleeps.induct) simp_all

lemma sleeps_exhausted_trace:
  "attempt \<le> retries \<Longrightarrow>
   sleeps (exhausted_trace filename len caption attempt retries) =
     map retry_delay [attempt..<retries]"
  by (induction "retries - attempt" arbitrary: attempt)
     (simp_all add: exhausted_trace_step upt_conv_Cons)

lemma retry_delay_values:
  "retry_delay 0 = 2000" "retry_delay (Suc 0) = 5000" "retry_delay 2 = 10000"
  "3 \<le> k \<Longrightarrow> retry_delay k = 10000"
  by (simp_all add: retry_delay_def delays_def)

text \<open>
  C4: when every upload request for the file fails with status 429, status 503 or no
  response, \<open>uploadMedia\<close> raises an error after exactly \<open>retries + 1\<close> upload
  requests, with one pause after each of the first \<open>retries\<close> of them: 2000 ms, then
  5000 ms, then 10000 ms for every later one. Nothing else is requested.
\<close>

theorem uploadMedia_retry_exhaustion:
  assumes "\<And>h. \<exists>f. post_media en h filename buf caption = Inl f
                    \<and> (status f = Some 429 \<or> status f = Some 503 \<or> status f = None)"
  shows "\<exists>e evs. uploadMedia en buf filename caption alt retries s
             = (Inl e, s\<lparr>trace := trace s @ evs\<rparr>)
           \<and> evs = exhausted_trace filename (length buf) caption 0 retries
                   @ [PostMedia filename (length buf) caption]
           \<and> length (filter is_post evs) = retries + 1
           \<and> sleeps evs = map retry_delay [0..<retries]
           \<and> retry_delay 0 = 2000 \<and> retry_delay 1 = 5000 \<and> retry_delay 2 = 10000
           \<and> (\<forall>k. 3 \<le> k \<longrightarrow> retry_delay k = 10000)"
proof -
  from loop_exhausted [OF assms, of 0 retries s alt None]
  obtain e where "uploadMedia en buf filename caption alt retries s =
      (Inl e, s\<lparr>trace := trace s @ exhausted_trace filename (length buf) caption 0 retries
                 @ [PostMedia filename (length buf) caption]\<rparr>)"
    unfolding uploadMedia_def by auto
  then show ?thesis
    by (simp add: posts_exhausted_trace sleeps_exhausted_trace sleeps_append
          retry_delay_values)
qed

theorem uploadMedia_retry_exhaustion_witness:
  "(\<exists>e. uploadMedia (post_always 429) ''abc'' ''a.jpg'' [] ''a'' 3 (createWp ''http://wp'' False None True 0)
      = (Inl e, (createWp ''http://wp'' False None True 0)
          \<lparr>trace := [PostMedia ''a.jpg'' 3 [], Sleep 2000, PostMedia ''a.jpg'' 3 [], Sleep 5000,
                     PostMedia ''a.jpg'' 3 [], Sleep 10000, PostMedia ''a.jpg'' 3 []]\<rparr>))"
proof -
  have h: "\<And>h. \<exists>f. post_media (post_always 429) h ''a.jpg'' ''abc'' [] = Inl f
                    \<and> (status f = Some 429 \<or> status f = Some 503 \<or> status f = None)"
    by (simp add: post_always_def offline_def)
  have t: "exhausted_trace ''a.jpg'' (length ''abc'') [] 0 3 =
      [PostMedia ''a.jpg'' 3 [], Sleep 2000, PostMedia ''a.jpg'' 3 [], Sleep 5000,
       PostMedia ''a.jpg'' 3 [], Sleep 10000]"
    by (simp add: exhausted_trace_step numeral_3_eq_3 retry_delay_def delays_def)
  from uploadMedia_retry_exhaustion [OF h, of "''a''" 3 "createWp ''http://wp'' False None True 0"]
  obtain e where "uploadMedia (post_always 429) ''abc'' ''a.jpg'' [] ''a'' 3
        (createWp ''http://wp'' False None True 0)
      = (Inl e, (createWp ''http://wp'' False None True 0)
          \<lparr>trace := trace (createWp ''http://wp'' False None True 0)
             @ exhausted_trace ''a.jpg'' (length ''abc'') [] 0 3
             @ [PostMedia ''a.jpg'' (length ''abc'') []]\<rparr>)"
    by blast
  then show ?thesis
    unfolding t by (simp add: createWp_def)
qed

text \<open>
  C5, as the code has it: when every upload request fails with status 429, status 503
  or no response, the error raised at the end depends on the failure of the last
  attempt. For status 503 it is a new error whose message names the file, its size in
  MB with two decimals and the number of retries; for status 429 and for no response it
  is the error of the failed request itself.
\<close>

theorem uploadMedia_exhausted_error:
  assumes "\<And>h. \<exists>f. post_media en h filename buf caption = Inl f
                    \<and> (status f = Some 429 \<or> status f = Some 503 \<or> status f = None)"
  shows "(\<exists>f. post_media en (trace s @ exhausted_trace filename (length buf) caption 0 retries)
               filename buf caption = Inl f
           \<and> fst (uploadMedia en buf filename caption alt retries s) =
               Inl (if status f = Some 503
                    then Error (unavailable_message filename (length buf) retries)
                    else RequestFailed f))
       \<and> unavailable_message filename (length buf) retries =
           ''WordPress server returned 503 Service Unavailable while uploading ''
             @ [CHR 0x22] @ filename @ [CHR 0x22] @ '' ('' @ fileSizeMB (length buf)
             @ ''MB) after '' @ show_nat retries
             @ '' retries. The server may be overloaded or have timeout issues.''"
proof -
  from loop_exhausted [OF assms, of 0 retries s alt None]
  obtain f where p: "post_media en
        (trace s @ exhausted_trace filename (length buf) caption 0 retries)
        filename buf caption = Inl f"
    and r: "uploadMedia_loop en buf filename caption alt retries 0 None s =
         (Inl (if status f = Some 503
               then Error (unavailable_message filename (length buf) retries)
               else RequestFailed f),
          s\<lparr>trace := trace s @ exhausted_trace filename (length buf) caption 0 retries
                 @ [PostMedia filename (length buf) caption]\<rparr>)"
    by blast
  have "fst (uploadMedia en buf filename caption alt retries s) =
      Inl (if status f = Some 503
           then Error (unavailable_message filename (length buf) retries)
           else RequestFailed f)"
    unfolding uploadMedia_def r by (rule fst_conv)
  with p have "\<exists>f. post_media en
        (trace s @ exhausted_trace filename (length buf) caption 0 retries)
        filename buf caption = Inl f
      \<and> fst (uploadMedia en buf filename caption alt retries s) =
          Inl (if status f = Some 503
               then Error (unavailable_message filename (length buf) retries)
               else RequestFailed f)"
    by blast
  moreover have "unavailable_message filename (length buf) retries =
           ''WordPress server returned 503 Service Unavailable while uploading ''
             @ [CHR 0x22] @ filename @ [CHR 0x22] @ '' ('' @ fileSizeMB (length buf)
             @ ''MB) after '' @ show_nat retries
             @ '' retries. The server may be overloaded or have timeout issues.''"
    by (rule unavailable_message_def)
  ultimately show ?thesis by (rule conjI)
qed

theorem uploadMedia_exhausted_error_witness:
  "fst (uploadMedia (post_always 503) ''abc'' ''a.jpg'' [] ''a'' 3
         (createWp ''http://wp'' False None True 0)) =
     Inl (Error (unavailable_message ''a.jpg'' 3 3))
   \<and> unavailable_message ''a.jpg'' 3 3 =
     ''WordPress server returned 503 Service Unavailable while uploading ''
        @ [CHR 0x22] @ ''a.jpg'' @ [CHR 0x22]
        @ '' (0.00MB) after 3 retries. The server may be overloaded or have timeout issues.''"
proof -
  have h: "\<And>h. \<exists>f. post_media (post_always 503) h ''a.jpg'' ''abc'' [] = Inl f
                    \<and> (status f = Some 429 \<or> status f = Some 503 \<or> status f = None)"
    by (simp add: post_always_def offline_def)
  have p: "post_media (post_always 503) h ''a.jpg'' b [] = Inl (Failure (Some 503) ''Request failed'' [])"
    for h b
    by (simp add: post_always_def offline_def)
  have n: "fileSizeMB 3 = ''0.00''" "show_nat 3 = ''3''" "length ''abc'' = 3"
    by (simp_all add: fileSizeMB_def digit_def)
  from uploadMedia_exhausted_error [OF h, of "createWp ''http://wp'' False None True 0" 3 "''a''"]
  show ?thesis
    unfolding p n by simp
qed

text \<open>
  With status 429 on every attempt the caller gets the error of the last request as it
  is, without file size or retry count.
\<close>

theorem uploadMedia_rate_limit_error_is_bare:
  "fst (uploadMedia (post_always 429) ''abc'' ''a.jpg'' [] ''a'' 3
         (createWp ''http://wp'' False None True 0)) =
     Inl (RequestFailed (Failure (Some 429) ''Request failed'' []))"
proof -
  have h: "\<And>h. \<exists>f. post_media (post_always 429) h ''a.jpg'' ''abc'' [] = Inl f
                    \<and> (status f = Some 429 \<or> status f = Some 503 \<or> status f = None)"
    by (simp add: post_always_def offline_def)
  have p: "post_media (post_always 429) h ''a.jpg'' b [] = Inl (Failure (Some 429) ''Request failed'' [])"
    for h b
    by (simp add: post_always_def offline_def)
  from loop_exhausted [OF h, of 0 3 "createWp ''http://wp'' False None True 0" "''a''" None]
  show ?thesis
    unfolding uploadMedia_def by (auto simp: p)
qed




section \<open>What the merge keeps\<close>

lemma starts_with_drop_le:
  "starts_with p (drop n s) \<Longrightarrow> p \<noteq> [] \<Longrightarrow> n + length p \<le> length s"
proof -
  assume h: "starts_with p (drop n s)" and ne: "p \<noteq> []"
  from h have "length (take (length p) (drop n s)) = length p"
    by (simp add: starts_with_def)
  then have "length p \<le> length s - n" by simp
  with ne show ?thesis by (cases p) auto
qed

lemma match_gallery_close_le: "match_gallery_close s = Some n \<Longrightarrow> 0 < n \<and> n \<le> length s"
  by (auto simp: match_gallery_close_def Let_def split: if_splits
        dest!: starts_with_drop_le [where p = "''-->''"])

lemma match_rest_tl: "match_rest (c # cs) = None \<Longrightarrow> match_rest cs = None"
  by (simp split: option.splits)

lemma match_rest_drop: "match_rest s = None \<Longrightarrow> match_rest (drop k s) = None"
proof (induction k arbitrary: s)
  case 0
  then show ?case by simp
next
  case (Suc k)
  show ?case
  proof (cases s)
    case Nil
    then show ?thesis by simp
  next
    case (Cons c cs)
    from Suc.prems have "match_rest cs = None" unfolding Cons by (rule match_rest_tl)
    with Suc.IH Cons show ?thesis by simp
  qed
qed

lemma match_rest_end: "match_rest s = Some e \<Longrightarrow> e \<le> length s \<and> match_rest (drop e s) = None"
proof (induction s arbitrary: e)
  case Nil
  then show ?case by simp
next
  case (Cons c cs)
  show ?case
  proof (cases "match_rest cs")
    case None
    with Cons.prems have m: "match_gallery_close (c # cs) = Some e" by simp
    then have "0 < e" "e \<le> length (c # cs)" using match_gallery_close_le by blast+
    then obtain e' where e': "e = Suc e'" by (cases e) auto
    with None show ?thesis using \<open>e \<le> length (c # cs)\<close> by (simp add: match_rest_drop)
  next
    case (Some n)
    with Cons.prems have "e = Suc n" by simp
    with Cons.IH[OF Some] show ?thesis by simp
  qed
qed

lemma exec_section_no_close: "match_rest s = None \<Longrightarrow> exec_section s = None"
proof (induction s)
  case Nil
  then show ?case by simp
next
  case (Cons c cs)
  from Cons.prems have "match_rest cs = None" by (rule match_rest_tl)
  moreover have "match_here (c # cs) = None"
    using match_rest_drop[OF Cons.prems] by (simp add: match_here_def split: option.splits)
  ultimately show ?case using Cons.IH by simp
qed

lemma match_here_end:
  assumes "match_here s = Some e"
  shows "e \<le> length s \<and> match_rest (drop e s) = None"
proof -
  from assms obtain k n where k: "match_heading_open s = Some k"
    and n: "match_rest (drop k s) = Some n" and e: "e = k + n"
    by (auto simp: match_here_def split: option.splits)
  from n have "drop k s \<noteq> []" by auto
  then have "k < length s" by simp
  moreover from match_rest_end[OF n]
  have "n \<le> length s - k" "match_rest (drop (n + k) s) = None" by simp_all
  ultimately show ?thesis using e by (simp add: add.commute)
qed

lemma exec_section_end:
  "exec_section s = Some (a, b) \<Longrightarrow> a \<le> b \<and> b \<le> length s \<and> match_rest (drop b s) = None"
proof (induction s arbitrary: a b)
  case Nil
  then show ?case by simp
next
  case (Cons c cs)
  show ?case
  proof (cases "match_here (c # cs)")
    case None
    with Cons.prems obtain a' b' where "exec_section cs = Some (a', b')" "a = Suc a'" "b = Suc b'"
      by (auto split: option.splits)
    with Cons.IH show ?thesis by simp
  next
    case (Some e)
    with Cons.prems have "a = 0" "b = e" by simp_all
    with match_here_end[OF Some] show ?thesis by simp
  qed
qed

lemma remove_sections_single:
  assumes "exec_section s = Some (a, b)"
  shows "remove_sections s = take a s @ drop b s"
proof -
  have "exec_section (drop b s) = None"
    using exec_section_end[OF assms] by (simp add: exec_section_no_close)
  then have "remove_sections (drop b s) = drop b s"
    by (subst remove_sections.simps) simp
  then show ?thesis
    using assms by (subst remove_sections.simps) simp
qed


lemma match_rest_none_close: "match_rest s = None \<Longrightarrow> match_gallery_close (drop j s) = None"
proof (induction s arbitrary: j)
  case Nil
  then show ?case by (simp add: match_gallery_close_def starts_with_def)
next
  case (Cons c cs)
  then have t: "match_rest cs = None" and h: "match_gallery_close (c # cs) = None"
    by (simp_all split: option.splits)
  show ?case
  proof (cases j)
    case 0
    with h show ?thesis by simp
  next
    case (Suc j')
    with Cons.IH[OF t] show ?thesis by simp
  qed
qed

lemma match_rest_last_close:
  "match_rest s = Some n \<Longrightarrow>
   \<exists>i m. match_gallery_close (drop i s) = Some m \<and> n = i + m
       \<and> (\<forall>j. i < j \<longrightarrow> match_gallery_close (drop j s) = None)"
proof (induction s arbitrary: n)
  case Nil
  then show ?case by simp
next
  case (Cons c cs)
  show ?case
  proof (cases "match_rest cs")
    case None
    with Cons.prems have m: "match_gallery_close (c # cs) = Some n" by simp
    have "match_gallery_close (drop j (c # cs)) = None" if "0 < j" for j
    proof -
      from that obtain j' where "j = Suc j'" by (cases j) auto
      then show ?thesis using match_rest_none_close[OF None, of j'] by simp
    qed
    with m show ?thesis by (intro exI[of _ 0] exI[of _ n]) simp
  next
    case (Some n')
    with Cons.prems have n: "n = Suc n'" by simp
    from Cons.IH[OF Some] obtain i m where
      i: "match_gallery_close (drop i cs) = Some m" "n' = i + m"
      "\<forall>j. i < j \<longrightarrow> match_gallery_close (drop j cs) = None"
      by blast
    have "match_gallery_close (drop j (c # cs)) = None" if "Suc i < j" for j
    proof -
      from that obtain j' where "j = Suc j'" "i < j'" by (cases j) auto
      then show ?thesis using i(3) by simp
    qed
    with i n show ?thesis by (intro exI[of _ "Suc i"] exI[of _ m]) simp
  qed
qed

lemma exec_section_start:
  "exec_section s = Some (a, b) \<Longrightarrow>
   match_here (drop a s) = Some (b - a) \<and> (\<forall>a'. a' < a \<longrightarrow> match_here (drop a' s) = None)"
proof (induction s arbitrary: a b)
  case Nil
  then show ?case by simp
next
  case (Cons c cs)
  show ?case
  proof (cases "match_here (c # cs)")
    case None
    with Cons.prems obtain a0 b0 where e: "exec_section cs = Some (a0, b0)"
      and ab: "a = Suc a0" "b = Suc b0"
      by (auto split: option.splits)
    have "match_here (drop a' (c # cs)) = None" if "a' < Suc a0" for a'
    proof (cases a')
      case 0
      with None show ?thesis by simp
    next
      case (Suc a'')
      with that Cons.IH[OF e] show ?thesis by simp
    qed
    with Cons.IH[OF e] ab show ?thesis by simp
  next
    case (Some e)
    with Cons.prems show ?thesis by simp
  qed
qed

text \<open>
  C2, as the code has it: when the previous content has a span, from \<open>a\<close> to \<open>b\<close>, the
  merged content is the text before the span followed at once by the text after it,
  this remainder trimmed of white space at its two ends, then an empty line and the new
  fragment (the fragment alone when nothing but white space remains). The span starts
  with a heading marker, no match of the pattern starts before it, and it ends with the
  last closing gallery marker of the content.
\<close>

theorem mergeContent_outside_span:
  assumes "exec_section prev = Some (a, b)"
  shows "mergeContent prev frag False =
           (if trim (take a prev @ drop b prev) = [] then frag
            else trim (take a prev @ drop b prev) @ [CHR 0x0A, CHR 0x0A] @ frag)
       \<and> a \<le> b \<and> b \<le> length prev
       \<and> (\<exists>k i m. match_heading_open (drop a prev) = Some k
             \<and> a + k \<le> i \<and> match_gallery_close (drop i prev) = Some m \<and> b = i + m
             \<and> (\<forall>j. i < j \<longrightarrow> match_gallery_close (drop j prev) = None))
       \<and> (\<forall>a'. a' < a \<longrightarrow> match_here (drop a' prev) = None)"
proof -
  have m: "mergeContent prev frag False =
           (if trim (take a prev @ drop b prev) = [] then frag
            else trim (take a prev @ drop b prev) @ [CHR 0x0A, CHR 0x0A] @ frag)"
    using assms by (simp add: mergeContent_def remove_sections_single)
  from exec_section_end[OF assms] have le: "a \<le> b" "b \<le> length prev" by simp_all
  from exec_section_start[OF assms]
  have h: "match_here (drop a prev) = Some (b - a)"
    and first: "\<forall>a'. a' < a \<longrightarrow> match_here (drop a' prev) = None"
    by simp_all
  from h obtain k n where k: "match_heading_open (drop a prev) = Some k"
    and n: "match_rest (drop k (drop a prev)) = Some n" and e: "b - a = k + n"
    by (auto simp: match_here_def split: option.splits)
  from match_rest_last_close[OF n] obtain i m where
    i: "match_gallery_close (drop i (drop k (drop a prev))) = Some m" "n = i + m"
    "\<forall>j. i < j \<longrightarrow> match_gallery_close (drop j (drop k (drop a prev))) = None"
    by blast
  have later: "match_gallery_close (drop j prev) = None" if "a + k + i < j" for j
  proof -
    from that have "i < j - (a + k)" and "j = (j - (a + k)) + k + a" by simp_all
    with i(3) show ?thesis by (metis drop_drop)
  qed
  have "match_gallery_close (drop (a + k + i) prev) = Some m"
    using i(1) by (simp add: add.commute add.left_commute)
  moreover have "b = (a + k + i) + m" using e i(2) le by simp
  ultimately have "\<exists>k i m. match_heading_open (drop a prev) = Some k
             \<and> a + k \<le> i \<and> match_gallery_close (drop i prev) = Some m \<and> b = i + m
             \<and> (\<forall>j. i < j \<longrightarrow> match_gallery_close (drop j prev) = None)"
    using k later by (intro exI[of _ k] exI[of _ "a + k + i"] exI[of _ m]) simp
  with m le first show ?thesis by blast
qed

theorem mergeContent_outside_span_witness:
  "mergeContent ''intro <!--wp:heading<!--/wp:gallery--> outro'' ''F'' False =
     ''intro  outro'' @ [CHR 0x0A, CHR 0x0A] @ ''F''"
proof -
  have e: "exec_section ''intro <!--wp:heading<!--/wp:gallery--> outro'' = Some (6, 38)"
    by (simp add: match_here_def match_heading_open_def match_gallery_close_def
          starts_with_def is_space_def)
  have t: "trim ''intro  outro'' = ''intro  outro''"
    by (simp add: trim_def is_space_def)
  from mergeContent_outside_span [OF e, of "''F''"] show ?thesis
    by (simp add: t)
qed

text \<open>
  A page whose hand-written text starts and ends with a line break, around a span: the
  text before the span is a line break and \<open>intro\<close>, the text after it is \<open>outro\<close> and
  a line break. The merged content starts with \<open>intro\<close> and has no line break after
  \<open>outro\<close> but the two that precede the new fragment.
\<close>

theorem mergeContent_trims_outside:
  "exec_section page_with_margins = Some (6, 38)
   \<and> take 6 page_with_margins = [CHR 0x0A] @ ''intro''
   \<and> drop 38 page_with_margins = ''outro'' @ [CHR 0x0A]
   \<and> mergeContent page_with_margins ''F'' False = ''introoutro'' @ [CHR 0x0A, CHR 0x0A] @ ''F''"
proof -
  have e: "exec_section page_with_margins = Some (6, 38)"
    by (simp add: page_with_margins_def match_here_def match_heading_open_def
          match_gallery_close_def starts_with_def is_space_def)
  have r: "remove_sections page_with_margins = take 6 page_with_margins @ drop 38 page_with_margins"
    by (rule remove_sections_single [OF e])
  have td: "take 6 page_with_margins = [CHR 0x0A] @ ''intro''"
    "drop 38 page_with_margins = ''outro'' @ [CHR 0x0A]"
    by (simp_all add: page_with_margins_def)
  have t: "trim (([CHR 0x0A] @ ''intro'') @ ''outro'' @ [CHR 0x0A]) = ''introoutro''"
    by (simp add: trim_def is_space_def)
  have m: "mergeContent page_with_margins ''F'' False =
      ''introoutro'' @ [CHR 0x0A, CHR 0x0A] @ ''F''"
    unfolding mergeContent_def r td t by (simp add: e)
  show ?thesis
    using e td m by blast
qed

section \<open>Running the merge twice\<close>

lemma makePageContent_start:
  "\<exists>r. makePageContent secs = ''<!-- wp:html -->'' @ r"
  unfolding makePageContent_def makeMasonryStyles_def Let_def join.simps append_assoc
  by (rule exI) (rule refl)

lemma match_here_html: "match_here (''<!-- wp:html -->'' @ r) = None"
  by (simp add: match_here_def match_heading_open_def starts_with_def is_space_def)

lemma exec_section_after_start:
  assumes "match_here (c # cs) = None" and "exec_section (c # cs) = Some (a, b)"
  shows "\<exists>a'. a = Suc a'"
  using assms by (auto split: option.splits)

lemma trim_nonempty: "\<not> is_space c \<Longrightarrow> trim (c # s) \<noteq> []"
  by (simp add: trim_def)

lemma mergeContent_empty: "mergeContent [] frag False = frag"
  by (simp add: mergeContent_def)

lemma mergeContent_keeps_start:
  assumes "prev = ''<!-- wp:html -->'' @ r"
  shows "\<exists>stale. stale \<noteq> [] \<and> mergeContent prev frag False = stale @ [CHR 0x0A, CHR 0x0A] @ frag"
proof (cases "exec_section prev")
  case None
  have "prev \<noteq> []" using assms by simp
  with None have "mergeContent prev frag False = prev @ [CHR 0x0A, CHR 0x0A] @ frag"
    by (simp add: mergeContent_def)
  with \<open>prev \<noteq> []\<close> show ?thesis by blast
next
  case (Some ab)
  obtain a b where ab: "ab = (a, b)" by (cases ab)
  with Some have e: "exec_section prev = Some (a, b)" by simp
  obtain cs where p: "prev = CHR ''<'' # cs" using assms by simp
  have "match_here (CHR ''<'' # cs) = None"
    using match_here_html[of r] assms p by simp
  with e p obtain a' where a: "a = Suc a'"
    using exec_section_after_start by blast
  have "take a prev @ drop b prev = CHR ''<'' # (take a' cs @ drop b prev)"
    by (simp add: a p)
  then have ne: "trim (take a prev @ drop b prev) \<noteq> []"
    by (simp add: trim_nonempty is_space_def)
  have "mergeContent prev frag False =
      trim (take a prev @ drop b prev) @ [CHR 0x0A, CHR 0x0A] @ frag"
    using e ne by (simp add: mergeContent_def remove_sections_single [OF e])
  with ne show ?thesis by blast
qed

lemma mismatch_not_starts_with: "mismatch pat q \<Longrightarrow> \<not> starts_with pat (q @ rest)"
proof (induction pat q rule: mismatch.induct)
  case (1 p ps c cs)
  then show ?case by (auto simp: starts_with_def split: if_splits)
qed simp_all

lemma closed_at_no_open:
  assumes "closed_at q"
  shows "match_heading_open (q @ rest) = None"
proof (cases "mismatch ''<!--'' q")
  case True
  then have "\<not> starts_with ''<!--'' (q @ rest)"
    by (rule mismatch_not_starts_with)
  then show ?thesis by (simp add: match_heading_open_def)
next
  case False
  with assms have sw: "starts_with ''<!--'' q"
    and mm: "mismatch ''wp:heading'' (dropWhile is_space (drop 4 q))"
    by (simp_all add: closed_at_def split: if_splits)
  from sw have len: "4 \<le> length q"
    by (auto simp: starts_with_def dest!: arg_cong [where f = length])
  from mm have ne: "dropWhile is_space (drop 4 q) \<noteq> []"
    by (cases "dropWhile is_space (drop 4 q)") simp_all
  then obtain x where x: "x \<in> set (drop 4 q)" "\<not> is_space x"
    by auto
  let ?w = "length (takeWhile is_space (drop 4 q))"
  have d: "drop 4 (q @ rest) = drop 4 q @ rest" using len by simp
  have tw: "takeWhile is_space (drop 4 q @ rest) = takeWhile is_space (drop 4 q)"
    using x by (rule takeWhile_append1)
  have dw: "dropWhile is_space (drop 4 q @ rest) = dropWhile is_space (drop 4 q) @ rest"
    using x by (rule dropWhile_append1)
  have "drop (4 + ?w) (q @ rest) = drop ?w (drop 4 (q @ rest))"
    by (metis drop_drop add.commute)
  also have "\<dots> = drop (length (takeWhile is_space (drop 4 q @ rest))) (drop 4 q @ rest)"
    unfolding d tw ..
  also have "\<dots> = dropWhile is_space (drop 4 q @ rest)"
    by (rule dropWhile_eq_drop [symmetric])
  finally have e: "drop (4 + ?w) (q @ rest) = dropWhile is_space (drop 4 q) @ rest"
    unfolding dw .
  have "\<not> starts_with ''wp:heading'' (drop (4 + ?w) (q @ rest))"
    unfolding e using mm by (rule mismatch_not_starts_with)
  then show ?thesis
    unfolding match_heading_open_def Let_def d tw by simp
qed

lemma all_closed_skip: "all_closed p \<Longrightarrow> exec_section (p @ rest) = shift (length p) (exec_section rest)"
proof (induction p)
  case Nil
  then show ?case by (simp add: shift_def split: option.splits)
next
  case (Cons c cs)
  then have ca: "closed_at (c # cs)" and ac: "all_closed cs"
    by (simp_all split: if_splits)
  from closed_at_no_open [OF ca, of rest] have "match_here (c # cs @ rest) = None"
    by (simp add: match_here_def)
  with Cons.IH [OF ac] show ?case
    by (simp add: shift_def split: option.splits)
qed

lemma mismatch_append: "mismatch pat q \<Longrightarrow> mismatch pat (q @ rest)"
  by (induction pat q rule: mismatch.induct) (auto split: if_splits)

lemma closed_at_append:
  assumes "closed_at q"
  shows "closed_at (q @ rest)"
proof (cases "mismatch ''<!--'' q")
  case True
  then show ?thesis by (simp add: closed_at_def mismatch_append)
next
  case False
  with assms have sw: "starts_with ''<!--'' q"
    and mm: "mismatch ''wp:heading'' (dropWhile is_space (drop 4 q))"
    by (simp_all add: closed_at_def split: if_splits)
  from sw have len: "4 \<le> length q"
    by (auto simp: starts_with_def dest!: arg_cong [where f = length])
  from mm have "dropWhile is_space (drop 4 q) \<noteq> []"
    by (cases "dropWhile is_space (drop 4 q)") simp_all
  then obtain x where x: "x \<in> set (drop 4 q)" "\<not> is_space x"
    by auto
  have d: "drop 4 (q @ rest) = drop 4 q @ rest" using len by simp
  have dw: "dropWhile is_space (drop 4 q @ rest) = dropWhile is_space (drop 4 q) @ rest"
    using x by (rule dropWhile_append1)
  have sw': "starts_with ''<!--'' (q @ rest)"
    using sw len by (simp add: starts_with_def)
  have "mismatch ''wp:heading'' (dropWhile is_space (drop 4 (q @ rest)))"
    unfolding d dw using mm by (rule mismatch_append)
  with sw' show ?thesis by (simp add: closed_at_def)
qed

lemma all_closed_append: "all_closed p \<Longrightarrow> all_closed q \<Longrightarrow> all_closed (p @ q)"
proof (induction p)
  case Nil
  then show ?case by simp
next
  case (Cons c cs)
  then have ca: "closed_at (c # cs)" and ac: "all_closed cs"
    by (simp_all split: if_splits)
  from closed_at_append [OF ca, of q] Cons.IH [OF ac Cons.prems(2)] show ?case by simp
qed

lemma all_closed_join:
  "all_closed sep \<Longrightarrow> list_all all_closed ls \<Longrightarrow> all_closed (join sep ls)"
  by (induction sep ls rule: join.induct) (simp_all add: all_closed_append)

lemma all_closed_no_lt: "CHR ''<'' \<notin> set p \<Longrightarrow> all_closed p"
  by (induction p) (auto simp: closed_at_def)

lemma all_closed_nl: "all_closed nl"
  by (simp add: nl_def closed_at_def)

lemma styles_closed: "all_closed makeMasonryStyles"
  unfolding makeMasonryStyles_def
  by (rule all_closed_join [OF all_closed_nl])
     (simp add: closed_at_def starts_with_def is_space_def)

lemma all_closed_literal_simps:
  "all_closed dq" "all_closed nl"
  by (simp_all add: dq_def nl_def closed_at_def)

lemma hyphenate_no_lt: "CHR ''<'' \<notin> set (hyphenate b s)"
  by (induction b s rule: hyphenate.induct) (auto simp: is_lower_alnum_def)

lemma strip_hyphens_subset: "set (strip_hyphens s) \<subseteq> set s"
  by (auto simp: strip_hyphens_def Let_def split: list.splits if_splits dest: in_set_butlastD)

lemma makeAnchorId_no_lt: "CHR ''<'' \<notin> set (makeAnchorId t)"
  using strip_hyphens_subset [of "hyphenate False (toLowerCase t)"] hyphenate_no_lt
  by (auto simp: makeAnchorId_def)

lemma toc_option_closed:
  assumes "CHR ''<'' \<notin> set (section_name sec)"
  shows "all_closed (toc_option sec)"
proof -
  have a: "all_closed (makeAnchorId (section_name sec))"
    by (rule all_closed_no_lt [OF makeAnchorId_no_lt])
  have n: "all_closed (section_name sec)"
    using assms by (rule all_closed_no_lt)
  show ?thesis
    unfolding toc_option_def Let_def
    by (intro all_closed_append all_closed_literal_simps a n)
       (simp_all add: closed_at_def starts_with_def is_space_def)
qed

lemma toc_closed:
  assumes "list_all (\<lambda>sec. CHR ''<'' \<notin> set (section_name sec)) s1"
  shows "all_closed (makeTocBlock s1)"
proof -
  have opts: "all_closed (join nl (map toc_option s1))"
    using assms
    by (intro all_closed_join all_closed_literal_simps)
       (simp add: list_all_iff toc_option_closed)
  show ?thesis
    unfolding makeTocBlock_def Let_def
    by (intro all_closed_append all_closed_literal_simps opts)
       (simp_all add: closed_at_def starts_with_def is_space_def)
qed

lemma show_nat_50: "show_nat 50 = ''50''"
  by (simp add: digit_def)

lemma spacer_closed: "all_closed (makeSpacerBlock 50)"
  unfolding makeSpacerBlock_def show_nat_50
  by (intro all_closed_append all_closed_literal_simps)
     (simp_all add: closed_at_def starts_with_def is_space_def)

lemma ends_with_refl: "ends_with m m"
  by (simp add: ends_with_def)

lemma ends_with_append: "ends_with m y \<Longrightarrow> ends_with m (x @ y)"
  by (metis append.assoc ends_with_def)

lemma gallery_ends: "ends_with ''<!-- /wp:gallery -->'' (makeGalleryBlock atts g)"
  unfolding makeGalleryBlock_def
  by (intro ends_with_append ends_with_refl)

lemma spacer_ends: "ends_with ''<!-- /wp:spacer -->'' (makeSpacerBlock h)"
  unfolding makeSpacerBlock_def
  by (intro ends_with_append ends_with_refl)

lemma heading_starts: "\<exists>r. makeHeadingBlock txt level anchor = ''<!-- wp:heading {'' @ r"
  unfolding makeHeadingBlock_def Let_def append_assoc
  by (rule exI) (rule refl)

lemma section_block_wrapped: "wrapped (section_block sec)"
proof -
  obtain r where h: "makeHeadingBlock (section_name sec) 2 (makeAnchorId (section_name sec))
      = ''<!-- wp:heading {'' @ r"
    using heading_starts by blast
  obtain z where g: "makeGalleryBlock (attachments sec) ''all-photos''
      = z @ ''<!-- /wp:gallery -->''"
    using gallery_ends by (auto simp: ends_with_def)
  have "section_block sec = ''<!-- wp:heading {'' @ (r @ nl @ nl @ z) @ ''<!-- /wp:gallery -->''"
    unfolding section_block_def Let_def h g by simp
  then show ?thesis unfolding wrapped_def by blast
qed

lemma join_wrapped: "ls \<noteq> [] \<Longrightarrow> list_all wrapped ls \<Longrightarrow> wrapped (join sep ls)"
proof (induction sep ls rule: join.induct)
  case (1 sep)
  then show ?case by simp
next
  case (2 sep x)
  then show ?case by simp
next
  case (3 sep x y ys)
  then obtain t where x: "x = ''<!-- wp:heading {'' @ t @ ''<!-- /wp:gallery -->''"
    by (auto simp: wrapped_def)
  from 3 obtain t' where j: "join sep (y # ys) = ''<!-- wp:heading {'' @ t' @ ''<!-- /wp:gallery -->''"
    by (auto simp: wrapped_def)
  have "join sep (x # y # ys) = ''<!-- wp:heading {''
      @ (t @ ''<!-- /wp:gallery -->'' @ sep @ ''<!-- wp:heading {'' @ t') @ ''<!-- /wp:gallery -->''"
    unfolding join.simps x j by simp
  then show ?case unfolding wrapped_def by blast
qed

lemma sectionContent_wrapped: "s1 \<noteq> [] \<Longrightarrow> wrapped (makeSectionContent s1)"
  unfolding makeSectionContent_def Let_def
  by (rule join_wrapped) (simp_all add: list_all_iff section_block_wrapped)

lemma match_rest_marker: "match_rest (x @ ''<!-- /wp:gallery -->'') = Some (length x + 20)"
proof (induction x)
  case Nil
  show ?case
    by (simp add: match_gallery_close_def starts_with_def is_space_def)
next
  case (Cons c cs)
  then show ?case by simp
qed

lemma exec_section_wrapped:
  assumes "wrapped h"
  shows "exec_section h = Some (0, length h)"
proof -
  from assms obtain t where h: "h = ''<!-- wp:heading {'' @ t @ ''<!-- /wp:gallery -->''"
    by (auto simp: wrapped_def)
  have o: "match_heading_open h = Some 15"
    unfolding h by (simp add: match_heading_open_def starts_with_def is_space_def)
  have d: "drop 15 h = ('' {'' @ t) @ ''<!-- /wp:gallery -->''"
    unfolding h by simp
  have r: "match_rest (drop 15 h) = Some (length t + 22)"
    unfolding d match_rest_marker by simp
  have l: "length h = length t + 37"
    unfolding h by simp
  have "match_here h = Some (length h)"
    unfolding match_here_def o by (simp add: r l)
  moreover obtain c cs where "h = c # cs" unfolding h by simp
  ultimately show ?thesis by simp
qed

lemma trim_core:
  assumes "p \<noteq> []" and "\<not> is_space (hd p)" and "\<not> is_space (last p)"
    and "list_all is_space w"
  shows "trim (p @ w) = p"
proof -
  obtain c cs where p: "p = c # cs" using assms(1) by (cases p) auto
  have a: "dropWhile is_space (p @ w) = p @ w"
    using assms(2) by (simp add: p)
  have rp: "rev p = last p # rev (butlast p)"
    using assms(1) by (metis append_butlast_last_id rev.simps(2) rev_append rev_rev_ident
        append_Cons append_Nil rev.simps(1))
  have b: "dropWhile is_space (rev p) = rev p"
    unfolding rp using assms(3) by simp
  have "dropWhile is_space (rev w @ rev p) = dropWhile is_space (rev p)"
    using assms(4) by (intro dropWhile_append2) (simp add: list_all_iff)
  then show ?thesis
    unfolding trim_def a by (simp add: b)
qed

lemma styles_start: "\<exists>r. makeMasonryStyles = ''<!-- wp:html -->'' @ r"
  unfolding makeMasonryStyles_def join.simps append_assoc
  by (rule exI) (rule refl)

lemma mergeContent_second_run:
  assumes "s1 \<noteq> []" and "list_all (\<lambda>sec. CHR ''<'' \<notin> set (section_name sec)) s1"
  shows "mergeContent (makePageContent s1) frag False =
    makeMasonryStyles @ nl @ nl @ makeTocBlock s1 @ nl @ nl @ makeSpacerBlock 50 @ nl @ nl @ frag"
proof -
  define core where
    "core = makeMasonryStyles @ nl @ nl @ makeTocBlock s1 @ nl @ nl @ makeSpacerBlock 50"
  define h where "h = makeSectionContent s1"
  have f: "makePageContent s1 = (core @ nl @ nl) @ h"
    by (simp add: makePageContent_def core_def h_def)
  have c: "all_closed (core @ nl @ nl)"
    unfolding core_def
    by (intro all_closed_append styles_closed toc_closed [OF assms(2)] spacer_closed
        all_closed_nl)
  have w: "exec_section h = Some (0, length h)"
    unfolding h_def by (rule exec_section_wrapped [OF sectionContent_wrapped [OF assms(1)]])
  have e: "exec_section (makePageContent s1)
      = Some (length (core @ nl @ nl), length (makePageContent s1))"
    unfolding f all_closed_skip [OF c] w by (simp add: shift_def)
  have r: "remove_sections (makePageContent s1) = core @ nl @ nl"
    unfolding remove_sections_single [OF e] by (simp add: f)
  obtain y where y: "makeMasonryStyles = ''<!-- wp:html -->'' @ y"
    using styles_start by blast
  obtain z where z: "makeSpacerBlock 50 = z @ ''<!-- /wp:spacer -->''"
    using spacer_ends by (auto simp: ends_with_def)
  have hd: "hd core = CHR ''<''" and ne: "core \<noteq> []"
    unfolding core_def y by simp_all
  have "core = (makeMasonryStyles @ nl @ nl @ makeTocBlock s1 @ nl @ nl @ z)
      @ ''<!-- /wp:spacer -->''"
    unfolding core_def z by simp
  then have "last core = last ''<!-- /wp:spacer -->''"
    by (metis last_appendR list.distinct(1))
  then have la: "last core = CHR ''>''" by simp
  have t: "trim (core @ nl @ nl) = core"
    by (rule trim_core) (simp_all add: ne hd la is_space_def nl_def)
  have "mergeContent (makePageContent s1) frag False = core @ [CHR 0x0A, CHR 0x0A] @ frag"
    unfolding mergeContent_def Let_def e r t using ne by simp
  then show ?thesis
    by (simp add: core_def nl_def)
qed

text \<open>
  C1 on the code: starting from an empty page, a first run writes the content rendered
  for \<open>s1\<close>; a second run, for \<open>s2\<close>, then writes a non-empty piece of the first run's
  content, an empty line and the content rendered for \<open>s2\<close>. When \<open>s1\<close> has a section
  and no section name of \<open>s1\<close> contains \<^verbatim>\<open><\<close>, that piece is the styles block, the
  navigation dropdown and the spacer of the first run. A single run for \<open>s2\<close> writes
  the content rendered for \<open>s2\<close> alone. The two differ, whatever \<open>s1\<close> and \<open>s2\<close> are.
\<close>

theorem mergeContent_accumulates:
  "(s1 \<noteq> [] \<and> list_all (\<lambda>sec. CHR ''<'' \<notin> set (section_name sec)) s1 \<longrightarrow>
      mergeContent (mergeContent [] (makePageContent s1) False) (makePageContent s2) False
        = makeMasonryStyles @ nl @ nl @ makeTocBlock s1 @ nl @ nl @ makeSpacerBlock 50
          @ nl @ nl @ makePageContent s2)
   \<and> (\<exists>stale. stale \<noteq> [] \<and>
      mergeContent (mergeContent [] (makePageContent s1) False) (makePageContent s2) False
        = stale @ [CHR 0x0A, CHR 0x0A] @ makePageContent s2)
   \<and> mergeContent [] (makePageContent s2) False = makePageContent s2
   \<and> mergeContent (mergeContent [] (makePageContent s1) False) (makePageContent s2) False
        \<noteq> mergeContent [] (makePageContent s2) False"
proof -
  obtain r where "makePageContent s1 = ''<!-- wp:html -->'' @ r"
    using makePageContent_start by blast
  from mergeContent_keeps_start [OF this, of "makePageContent s2"]
  obtain stale where "stale \<noteq> []"
    and "mergeContent (makePageContent s1) (makePageContent s2) False =
      stale @ [CHR 0x0A, CHR 0x0A] @ makePageContent s2"
    by blast
  then have a: "(\<exists>stale. stale \<noteq> [] \<and>
      mergeContent (mergeContent [] (makePageContent s1) False) (makePageContent s2) False
        = stale @ [CHR 0x0A, CHR 0x0A] @ makePageContent s2)
   \<and> mergeContent [] (makePageContent s2) False = makePageContent s2
   \<and> mergeContent (mergeContent [] (makePageContent s1) False) (makePageContent s2) False
        \<noteq> mergeContent [] (makePageContent s2) False"
    by (auto simp: mergeContent_empty)
  have b: "s1 \<noteq> [] \<and> list_all (\<lambda>sec. CHR ''<'' \<notin> set (section_name sec)) s1 \<longrightarrow>
      mergeContent (mergeContent [] (makePageContent s1) False) (makePageContent s2) False
        = makeMasonryStyles @ nl @ nl @ makeTocBlock s1 @ nl @ nl @ makeSpacerBlock 50
          @ nl @ nl @ makePageContent s2"
    unfolding mergeContent_empty by (auto intro: mergeContent_second_run)
  from b a show ?thesis by (rule conjI)
qed

text \<open>
  The theorem at the page of one section \<^verbatim>\<open>A\<close> with one image, synchronised twice.
\<close>

theorem mergeContent_accumulates_witness:
  "[\<lparr>section_name = ''A'', attachments = [\<lparr>att_id = Some 1, att_url = ''u'', att_alt = ''a''\<rparr>]\<rparr>] \<noteq> []
   \<and> list_all (\<lambda>sec. CHR ''<'' \<notin> set (section_name sec))
        [\<lparr>section_name = ''A'', attachments = [\<lparr>att_id = Some 1, att_url = ''u'', att_alt = ''a''\<rparr>]\<rparr>]
   \<and> mergeContent
        (mergeContent []
          (makePageContent
            [\<lparr>section_name = ''A'', attachments = [\<lparr>att_id = Some 1, att_url = ''u'', att_alt = ''a''\<rparr>]\<rparr>])
          False)
        (makePageContent
          [\<lparr>section_name = ''A'', attachments = [\<lparr>att_id = Some 1, att_url = ''u'', att_alt = ''a''\<rparr>]\<rparr>])
        False
      = makeMasonryStyles @ nl @ nl
        @ makeTocBlock
            [\<lparr>section_name = ''A'', attachments = [\<lparr>att_id = Some 1, att_url = ''u'', att_alt = ''a''\<rparr>]\<rparr>]
        @ nl @ nl @ makeSpacerBlock 50 @ nl @ nl
        @ makePageContent
            [\<lparr>section_name = ''A'', attachments = [\<lparr>att_id = Some 1, att_url = ''u'', att_alt = ''a''\<rparr>]\<rparr>]"
proof -
  let ?s = "[\<lparr>section_name = ''A'', attachments = [\<lparr>att_id = Some 1, att_url = ''u'', att_alt = ''a''\<rparr>]\<rparr>]"
  have h1: "?s \<noteq> []" by simp
  have h2: "list_all (\<lambda>sec. CHR ''<'' \<notin> set (section_name sec)) ?s" by simp
  note c = mergeContent_accumulates [of ?s ?s, THEN conjunct1, THEN mp, OF conjI, OF h1 h2]
  show ?thesis by (rule conjI [OF h1 conjI [OF h2 c]])
qed

section \<open>The dry run\<close>
































section \<open>What the caller learns of a failed run\<close>

lemma trip_strings:
  "toLowerCase ''beach.jpg'' = ''beach.jpg''" "toLowerCase ''beach'' = ''beach''"
  "toLowerCase ''sunset.jpg'' = ''sunset.jpg''" "toLowerCase ''sunset'' = ''sunset''"
  "stripExt ''beach.jpg'' = ''beach''" "stripExt ''sunset.jpg'' = ''sunset''"
  "last_segment ''http://wp/uploads/beach.jpg'' = ''beach.jpg''"
  "last_segment ''http://wp/uploads/sunset.jpg'' = ''sunset.jpg''"
  "trim (strip_tags ''beach'') = ''beach''"
  by code_simp+

lemma trip_run_patch_fails:
  "\<exists>s. syncOnce 1 (trip True) (trip_params False) None True 0 =
       Some (Inl (RequestFailed (Failure (Some 500) ''Request failed with status code 500'' [])), s)
     \<and> trace s =
       [GetMediaPage 1, DriveListFolders ''root'', DriveListImages ''f1'', SearchMedia ''sunset'',
        DriveDownload ''i2'', PostMedia ''sunset.jpg'' 5 [], PatchMediaAlt (Some 8) ''sunset'',
        GetPage 42,
        PatchPage 42 (makePageContent
          [\<lparr>section_name = ''Trip'',
            attachments =
              [\<lparr>att_id = Some 7, att_url = ''http://wp/uploads/beach.jpg'', att_alt = ''beach''\<rparr>,
               \<lparr>att_id = Some 8, att_url = ''http://wp/uploads/sunset.jpg'', att_alt = ''sunset''\<rparr>]\<rparr>])]"
  by (simp add: syncOnce_def trip_params_def trip_def offline_def createWp_def
        loadMediaCache_def loadCache_def isCacheValid_def emit_def saveCache_def trip_strings
        findMediaByFilename_def findMediaInCache_def cached_item_def make_result_def Let_def
        uploadMedia_def uploadMedia_loop.simps [of _ _ _ _ _ _ 0] try_upload_def addToCache_def
        resizeImageIfNeeded_def write_page_def getPage_def patchPageContent_def
        mergeContent_empty object_simps)

lemma empty_run_patch_fails:
  "\<exists>s. syncOnce 1 (empty_drive True) (trip_params False) None True 0 =
       Some (Inl (RequestFailed (Failure (Some 500) ''Request failed with status code 500'' [])), s)
     \<and> trace s =
       [GetMediaPage 1, DriveListFolders ''root'', GetPage 42, PatchPage 42 (makePageContent [])]"
  by (simp add: syncOnce_def trip_params_def empty_drive_def trip_def offline_def createWp_def
        loadMediaCache_def loadCache_def isCacheValid_def emit_def saveCache_def trip_strings
        make_result_def Let_def object_simps
        write_page_def getPage_def patchPageContent_def mergeContent_empty)


text \<open>
  C3, as the code has it: when \<open>syncOnce\<close> throws an error, the handler answers with
  status 500, \<^verbatim>\<open>ok: false\<close> and the message of the error, and nothing else: the counts
  of the run are not part of the answer. Two runs that throw errors with the same
  message get the same answer, whatever each of them had done before. What a run did
  before it failed stays done: the state it leaves is the state at the failure.
\<close>

theorem handler_failure_report:
  assumes "syncOnce fuel en p file writable now = Some (Inl e, s)"
    and "message e = Some m"
    and "syncOnce fuel' en' p' file' writable' now' = Some (Inl e', s')"
    and "message e' = Some m"
  shows "handler fuel en p file writable now =
           Some (Inr \<lparr>statusCode = 500, body = ok_false m\<rparr>, s)
       \<and> handler fuel' en' p' file' writable' now' =
           Some (Inr \<lparr>statusCode = 500, body = ok_false m\<rparr>, s')"
  using assms by (simp add: handler_def)

theorem handler_failure_report_witness:
  "outcome_of (handler 1 (trip True) (trip_params False) None True 0) =
     Some (Inr \<lparr>statusCode = 500, body = ok_false ''Request failed with status code 500''\<rparr>)
   \<and> outcome_of (handler 1 (empty_drive True) (trip_params False) None True 0) =
     Some (Inr \<lparr>statusCode = 500, body = ok_false ''Request failed with status code 500''\<rparr>)"
proof -
  obtain s where a: "syncOnce 1 (trip True) (trip_params False) None True 0 =
       Some (Inl (RequestFailed (Failure (Some 500) ''Request failed with status code 500'' [])), s)"
    using trip_run_patch_fails by blast
  obtain s' where b: "syncOnce 1 (empty_drive True) (trip_params False) None True 0 =
       Some (Inl (RequestFailed (Failure (Some 500) ''Request failed with status code 500'' [])), s')"
    using empty_run_patch_fails by blast
  have m: "message (RequestFailed (Failure (Some 500) ''Request failed with status code 500'' []))
      = Some ''Request failed with status code 500''"
    by simp
  from handler_failure_report [OF a m b m] show ?thesis
    by (simp add: outcome_of_def)
qed

text \<open>
  Two runs whose page update fails with status 500. The first has downloaded and
  uploaded \<open>sunset.jpg\<close> before; the second found nothing to upload. The handler gives
  the same answer to both, and the answer holds no count.
\<close>

theorem handler_hides_partial_change:
  "outcome_of (handler 1 (trip True) (trip_params False) None True 0) =
     Some (Inr \<lparr>statusCode = 500, body = ok_false ''Request failed with status code 500''\<rparr>)
   \<and> filter is_post (trace_of (handler 1 (trip True) (trip_params False) None True 0)) =
     [PostMedia ''sunset.jpg'' 5 []]
   \<and> outcome_of (handler 1 (empty_drive True) (trip_params False) None True 0) =
     Some (Inr \<lparr>statusCode = 500, body = ok_false ''Request failed with status code 500''\<rparr>)
   \<and> filter is_post (trace_of (handler 1 (empty_drive True) (trip_params False) None True 0)) = []"
proof -
  obtain s where a: "syncOnce 1 (trip True) (trip_params False) None True 0 =
       Some (Inl (RequestFailed (Failure (Some 500) ''Request failed with status code 500'' [])), s)"
    and ta: "filter is_post (trace s) = [PostMedia ''sunset.jpg'' 5 []]"
    using trip_run_patch_fails by auto
  obtain s' where b: "syncOnce 1 (empty_drive True) (trip_params False) None True 0 =
       Some (Inl (RequestFailed (Failure (Some 500) ''Request failed with status code 500'' [])), s')"
    and tb: "filter is_post (trace s') = []"
    using empty_run_patch_fails by auto
  have ha: "handler 1 (trip True) (trip_params False) None True 0 =
      Some (Inr \<lparr>statusCode = 500, body = ok_false ''Request failed with status code 500''\<rparr>, s)"
    unfolding handler_def a by simp
  have hb: "handler 1 (empty_drive True) (trip_params False) None True 0 =
      Some (Inr \<lparr>statusCode = 500, body = ok_false ''Request failed with status code 500''\<rparr>, s')"
    unfolding handler_def b by simp
  show ?thesis
    unfolding ha hb outcome_of_def trace_of_def using ta tb by simp
qed

end
